theory Spec2Isabelle
  imports Main "HOL-Library.Sublist"
begin

section \<open>levelcache: a two-tier read-through cache\<close>

text \<open>
  The repository holds three revisions of the cache engine. Each is embedded under
  its own suffix:
  \<^item> \<open>_v1\<close>: \<^verbatim>\<open>src/cache.go\<close> (no lock, the worker reloads through the loader);
  \<^item> \<open>_v2\<close>: \<^verbatim>\<open>src/unnamed/part_000\<close> (lock added, the worker copies the remote value);
  \<^item> \<open>_v3\<close>: \<^verbatim>\<open>src/cache_test.go\<close>, lines 59 to 312 (notifications carry a version
    number, \<open>New\<close> keeps the remote client).
  Functions that are the same text in all revisions (for example \<open>jointKey\<close>) have no
  suffix.

  What is outside the repository is modelled at its interface:
  \<^item> the remote store (go-redis) is a record \<open>world\<close>: a map from keys to strings and a
    flag telling whether the server answers; the flag does not change during a call;
  \<^item> the local tier (go-cache) is a map; time does not advance between the modelled
    calls, so no entry expires in either tier;
  \<^item> the codec (jsoniter, copier) and the method \<open>Namespace\<close> of the cached type are
    fields of a record \<open>codec\<close> handed to every operation;
  \<^item> a loader is a function from the key to an error or an object;
  \<^item> the outcome of every attempt to obtain the distributed lock is given by the caller
    as a list of booleans;
  \<^item> a goroutine runs to completion where it is started: interleavings are not modelled.
    Of the worker that \<open>Start\<close> spawns, one turn of its loop is modelled; \<open>Stop\<close> and the
    closing of the channels are not.
  The field \<open>trace\<close> of \<open>world\<close> is a ghost log of the calls that leave the process
  (remote commands, lock commands) and of the loader invocations, in program order.
  The values of type int64 (version numbers) are integers; \<open>ParseInt\<close> and \<open>INCR\<close> keep
  them in the 64-bit range.
\<close>

subsection \<open>Errors, panics and blocking\<close>

datatype error =
    RedisNil
  | RedisFail string
  | Errorf string
  | CodecError string

text \<open>
  A call either panics, blocks on a send to a full channel (until another goroutine
  receives, which a sequential run never sees), or returns.
\<close>

datatype 'a run = Panic string | Blocked | Done 'a

definition nilDeref :: "'a run" where
  "nilDeref = Panic ''invalid memory address or nil pointer dereference''"

subsection \<open>Decimal integers\<close>

definition digit_of :: "char \<Rightarrow> int option" where
  "digit_of ch =
     (if ch = CHR ''0'' then Some 0 else if ch = CHR ''1'' then Some 1
      else if ch = CHR ''2'' then Some 2 else if ch = CHR ''3'' then Some 3
      else if ch = CHR ''4'' then Some 4 else if ch = CHR ''5'' then Some 5
      else if ch = CHR ''6'' then Some 6 else if ch = CHR ''7'' then Some 7
      else if ch = CHR ''8'' then Some 8 else if ch = CHR ''9'' then Some 9
      else None)"

fun parse_uint :: "string \<Rightarrow> int \<Rightarrow> int option" where
  "parse_uint [] acc = Some acc"
| "parse_uint (ch # cs) acc =
     (case digit_of ch of None \<Rightarrow> None | Some d \<Rightarrow> parse_uint cs (10 * acc + d))"

text \<open>
  \<^verbatim>\<open>strconv.ParseInt(s, 10, 64)\<close>: an optional sign, then at least one decimal digit and
  nothing else; a value outside the 64-bit signed range is an error.
\<close>

definition ParseInt :: "string \<Rightarrow> error + int" where
  "ParseInt s =
     (case s of
        [] \<Rightarrow> Inl (Errorf ''invalid syntax'')
      | ch # cs \<Rightarrow>
          (let neg = (ch = CHR ''-'');
               ds = (if ch = CHR ''+'' \<or> ch = CHR ''-'' then cs else s)
           in if ds = [] then Inl (Errorf ''invalid syntax'')
              else (case parse_uint ds 0 of
                      None \<Rightarrow> Inl (Errorf ''invalid syntax'')
                    | Some n \<Rightarrow>
                        if neg then (if n \<le> 2 ^ 63 then Inr (- n)
                                     else Inl (Errorf ''value out of range''))
                        else (if n < 2 ^ 63 then Inr n
                              else Inl (Errorf ''value out of range'')))))"

definition digit_char :: "nat \<Rightarrow> char" where
  "digit_char d = ''0123456789'' ! d"

fun show_nat :: "nat \<Rightarrow> string" where
  "show_nat n =
     (if n < 10 then [digit_char n] else show_nat (n div 10) @ [digit_char (n mod 10)])"

declare show_nat.simps [simp del]

definition show_int :: "int \<Rightarrow> string" where
  "show_int i = (if i < 0 then CHR ''-'' # show_nat (nat (- i)) else show_nat (nat i))"

subsection \<open>The remote store\<close>

datatype event =
    Ping
  | RGet string
  | RSet string string
  | RIncr string
  | Load string string
  | Obtain string bool
  | Release string

record world =
  kv :: "string \<rightharpoonup> string"
  up :: bool
  trace :: "event list"

definition log :: "event \<Rightarrow> world \<Rightarrow> world" where
  "log e w = w\<lparr>trace := trace w @ [e]\<rparr>"

text \<open>
  \<^verbatim>\<open>rdb.Ping(ctx).Err()\<close>, \<^verbatim>\<open>rdb.Get(ctx, k).Result()\<close>, \<^verbatim>\<open>rdb.Set(ctx, k, v, ttl)\<close> and
  \<^verbatim>\<open>rdb.Incr(ctx, k).Result()\<close>. \<open>Result\<close> returns the zero value beside an error.
  \<open>INCR\<close> takes an absent key as 0 and refuses a value that is not the decimal form of
  a 64-bit integer, or whose successor would overflow.
\<close>

definition redis_Ping :: "world \<Rightarrow> error option \<times> world" where
  "redis_Ping w =
     (if up w then (None, log Ping w)
      else (Some (RedisFail ''connection refused''), log Ping w))"

definition redis_Get :: "string \<Rightarrow> world \<Rightarrow> (string \<times> error option) \<times> world" where
  "redis_Get k w =
     (if \<not> up w then (([], Some (RedisFail ''connection refused'')), log (RGet k) w)
      else (case kv w k of
              None \<Rightarrow> (([], Some RedisNil), log (RGet k) w)
            | Some v \<Rightarrow> ((v, None), log (RGet k) w)))"

definition redis_Set :: "string \<Rightarrow> string \<Rightarrow> world \<Rightarrow> world" where
  "redis_Set k v w =
     (if up w then log (RSet k v) (w\<lparr>kv := (kv w)(k \<mapsto> v)\<rparr>) else log (RSet k v) w)"

definition redis_int :: "string \<Rightarrow> int option" where
  "redis_int s =
     (case ParseInt s of
        Inl e \<Rightarrow> None
      | Inr n \<Rightarrow> if show_int n = s then Some n else None)"

text \<open>The integer that \<open>INCR\<close> finds under a key, if it finds one.\<close>

definition counter_of :: "world \<Rightarrow> string \<Rightarrow> int option" where
  "counter_of w k = (case kv w k of None \<Rightarrow> Some 0 | Some s \<Rightarrow> redis_int s)"

definition redis_Incr :: "string \<Rightarrow> world \<Rightarrow> (int \<times> error option) \<times> world" where
  "redis_Incr k w =
     (if \<not> up w then ((0, Some (RedisFail ''connection refused'')), log (RIncr k) w)
      else (case counter_of w k of
              None \<Rightarrow> ((0, Some (RedisFail ''ERR value is not an integer or out of range'')),
                        log (RIncr k) w)
            | Some n \<Rightarrow>
                if n + 1 < 2 ^ 63
                then ((n + 1, None), log (RIncr k) (w\<lparr>kv := (kv w)(k \<mapsto> show_int (n + 1))\<rparr>))
                else ((0, Some (RedisFail ''ERR increment or decrement would overflow'')),
                      log (RIncr k) w)))"

subsection \<open>Keys\<close>

definition cacheKeyJoint :: string where
  "cacheKeyJoint = ''#$#''"

text \<open>\<^verbatim>\<open>strings.Join(a, cacheKeyJoint)\<close>.\<close>

fun jointKey :: "string list \<Rightarrow> string" where
  "jointKey [] = []"
| "jointKey [x] = x"
| "jointKey (x # y # ys) = x @ cacheKeyJoint @ jointKey (y # ys)"

text \<open>
  \<^verbatim>\<open>strings.Split(a, cacheKeyJoint)\<close>: the pieces between the occurrences of the
  separator, found from the left without overlap. \<open>acc\<close> holds the current piece,
  reversed.
\<close>

function split_at :: "string \<Rightarrow> string \<Rightarrow> string list" where
  "split_at acc [] = [rev acc]"
| "split_at acc (x # xs) =
     (if prefix cacheKeyJoint (x # xs)
      then rev acc # split_at [] (drop (length cacheKeyJoint) (x # xs))
      else split_at (x # acc) xs)"
  by pat_completeness auto
termination
  by (relation "measure (\<lambda>(acc, s). length s)") (auto simp: cacheKeyJoint_def)

definition splitKey :: "string \<Rightarrow> string \<times> string" where
  "splitKey a =
     (let arr = split_at [] a
      in if length arr < 2 then ([], []) else (arr ! 0, arr ! 1))"

subsection \<open>The cached type, the codec and the loaders\<close>

text \<open>
  \<open>Namespace\<close> is the method of the interface \<open>Cacheable\<close>. \<open>Marshal\<close> is
  \<^verbatim>\<open>jsoniter.MarshalToString\<close>; \<open>Unmarshal s obj\<close> is \<^verbatim>\<open>jsoniter.UnmarshalFromString(s, obj)\<close>
  and \<open>Copy obj data\<close> is \<^verbatim>\<open>copier.Copy(obj, data)\<close>: both return the target as they left
  it and the error, if any.
\<close>

record 'o codec =
  Namespace :: "'o \<Rightarrow> string"
  Marshal :: "'o \<Rightarrow> error + string"
  Unmarshal :: "string \<Rightarrow> 'o \<Rightarrow> 'o \<times> error option"
  Copy :: "'o \<Rightarrow> 'o \<Rightarrow> 'o \<times> error option"

type_synonym 'o DataLoader = "string \<Rightarrow> error + 'o"

text \<open>\<open>jsonString\<close> (cache.go, part\_000) and \<open>toJson\<close> (cache\_test.go) are the same text.\<close>

definition toJson :: "'o codec \<Rightarrow> 'o \<Rightarrow> string" where
  "toJson cd obj = (case Marshal cd obj of Inl e \<Rightarrow> [] | Inr content \<Rightarrow> content)"

subsection \<open>Channels\<close>

text \<open>
  A buffered channel: its capacity and the elements waiting in it. A send on a full
  channel blocks.
\<close>

record 'a chan =
  cap :: nat
  buf :: "'a list"

definition make_chan :: "nat \<Rightarrow> 'a chan" where
  "make_chan n = \<lparr>cap = n, buf = []\<rparr>"

definition send :: "'a \<Rightarrow> 'a chan \<Rightarrow> 'a chan option" where
  "send x ch = (if length (buf ch) < cap ch then Some (ch\<lparr>buf := buf ch @ [x]\<rparr>) else None)"

subsection \<open>The cache instance\<close>

type_synonym Duration = int

definition Minute :: Duration where
  "Minute = 60 * 1000000000"

record redis_Options =
  Addr :: string
  Password :: string
  DB :: int

text \<open>
  The struct \<open>levelCache\<close> of cache.go. \<open>'e\<close> is what the local tier stores, \<open>'u\<close> what the
  channel \<open>updates\<close> carries, \<open>'g\<close> the configuration, \<open>'o\<close> the cached type. The pointer
  \<open>rdb\<close> is \<open>None\<close> while it is nil. The maps and channels are made by \<open>New\<close> in every
  revision and are never nil.
\<close>

record ('e, 'u, 'g, 'o) levelCache =
  c :: "string \<rightharpoonup> 'e"
  rdb :: "redis_Options option"
  loaders :: "string \<rightharpoonup> 'o DataLoader"
  cfg :: 'g
  version :: "string \<rightharpoonup> int"
  updates :: "'u chan"
  stop :: "unit chan"

text \<open>The struct of part\_000 and cache\_test.go has one more field, the lock client.\<close>

record ('e, 'u, 'g, 'o) levelCache_lk = "('e, 'u, 'g, 'o) levelCache" +
  locker :: "redis_Options option"

record versionInfo =
  dataKey :: string
  versionNo :: int

record CacheConfig_v1 =
  RedisAddr :: string
  RedisDb :: int
  RedisPassw :: string
  RedisPoolSize :: int
  LocalExpiration :: Duration
  CleanupInterval :: Duration

record CacheConfig =
  RedisAddr :: string
  RedisDb :: int
  RedisPassword :: string
  RedisPoolSize :: int
  CacheExpiration :: Duration
  CleanupInterval :: Duration
  LockInterval :: Duration
  MaxUpdateBuffer :: int

subsection \<open>Revision 1: src/cache.go\<close>

text \<open>
  The local tier of this revision stores the objects themselves. Go stores the pointer
  it is given; the model stores the value the pointer has at that moment.
\<close>

type_synonym 'o cache_v1 = "('o, string, CacheConfig_v1, 'o) levelCache"

definition maxUpdateLen :: nat where
  "maxUpdateLen = 1000"

definition DataLoaderNotFound :: error where
  "DataLoaderNotFound = Errorf ''data loader not found''"

definition New_v1 :: "CacheConfig_v1 \<Rightarrow> world \<Rightarrow> (error + 'o cache_v1) \<times> world" where
  "New_v1 cf w =
     (let lc = \<lparr>c = Map.empty, rdb = None, loaders = Map.empty, cfg = cf,
                version = Map.empty, updates = make_chan maxUpdateLen, stop = make_chan 1\<rparr>;
          client = \<lparr>Addr = CacheConfig_v1.RedisAddr cf, Password = RedisPassw cf,
                    DB = CacheConfig_v1.RedisDb cf\<rparr>
      in case redis_Ping w of
           (Some err, w1) \<Rightarrow> (Inl err, w1)
         | (None, w1) \<Rightarrow> (Inr lc, w1))"

definition RegisterLoader_v1 ::
  "string \<Rightarrow> 'o DataLoader \<Rightarrow> 'o cache_v1 \<Rightarrow> 'o cache_v1" where
  "RegisterLoader_v1 namespace loader p = p\<lparr>loaders := (loaders p)(namespace \<mapsto> loader)\<rparr>"

text \<open>
  \<open>checkCacheUpdate\<close> is the same text in cache.go and part\_000, so it is typed for both
  structs.
\<close>

definition checkCacheUpdate_v1 ::
  "string \<Rightarrow> string \<Rightarrow> ('e, string, 'g, 'o, 'z) levelCache_scheme \<Rightarrow> world
     \<Rightarrow> (('e, string, 'g, 'o, 'z) levelCache_scheme \<times> world) run" where
  "checkCacheUpdate_v1 namespace key p w =
     (let k = jointKey [namespace, key];
          vk = jointKey [namespace, key, ''version'']
      in case rdb p of
           None \<Rightarrow> nilDeref
         | Some client \<Rightarrow>
             (case redis_Get vk w of
                ((latestContent, err), w1) \<Rightarrow>
                  if err \<noteq> None then Done (p, w1)
                  else (case ParseInt latestContent of
                          Inl e \<Rightarrow> Done (p, w1)
                        | Inr latest \<Rightarrow>
                            (case version p k of
                               None \<Rightarrow> Done (p, w1)
                             | Some current \<Rightarrow>
                                 if latest \<noteq> current
                                 then (case send k (updates p) of
                                         None \<Rightarrow> Blocked
                                       | Some ch \<Rightarrow> Done (p\<lparr>updates := ch\<rparr>, w1))
                                 else Done (p, w1)))))"

text \<open>Lines 117 to 133 of \<open>get\<close>: the loader, the write to both tiers, the seed.\<close>

definition load_v1 ::
  "'o codec \<Rightarrow> string \<Rightarrow> string \<Rightarrow> 'o \<Rightarrow> 'o cache_v1 \<Rightarrow> world
     \<Rightarrow> (error option \<times> 'o \<times> 'o cache_v1 \<times> world) run" where
  "load_v1 cd key k obj p w =
     (case loaders p (Namespace cd obj) of
        None \<Rightarrow> Done (Some DataLoaderNotFound, obj, p, w)
      | Some loader \<Rightarrow>
          (let w1 = log (Load (Namespace cd obj) key) w
           in case loader key of
                Inl err \<Rightarrow> Done (Some err, obj, p, w1)
              | Inr data \<Rightarrow>
                  (case Copy cd obj data of
                     (obj1, Some err) \<Rightarrow> Done (Some err, obj1, p, w1)
                   | (obj1, None) \<Rightarrow>
                       (case rdb p of
                          None \<Rightarrow> nilDeref
                        | Some client \<Rightarrow>
                            (let w2 = redis_Set k (toJson cd obj1) w1;
                                 p1 = p\<lparr>c := (c p)(k \<mapsto> obj1)\<rparr>;
                                 p2 = (if version p1 k = None
                                       then p1\<lparr>version := (version p1)(k \<mapsto> 0)\<rparr>
                                       else p1)
                             in Done (None, obj1, p2, w2))))))"

definition get_v1 ::
  "'o codec \<Rightarrow> string \<Rightarrow> 'o \<Rightarrow> 'o cache_v1 \<Rightarrow> world
     \<Rightarrow> (error option \<times> 'o \<times> 'o cache_v1 \<times> world) run" where
  "get_v1 cd key obj p w =
     (let k = jointKey [Namespace cd obj, key]
      in case c p k of
           Some data \<Rightarrow> (case Copy cd obj data of (obj1, err) \<Rightarrow> Done (err, obj1, p, w))
         | None \<Rightarrow>
             (case rdb p of
                None \<Rightarrow> nilDeref
              | Some client \<Rightarrow>
                  (case redis_Get key w of
                     ((content, err), w1) \<Rightarrow>
                       if err \<noteq> None \<and> err \<noteq> Some RedisNil then Done (err, obj, p, w1)
                       else if content \<noteq> []
                       then (case Unmarshal cd content obj of
                               (obj1, Some e) \<Rightarrow> Done (Some e, obj1, p, w1)
                             | (obj1, None) \<Rightarrow>
                                 load_v1 cd key k obj1 (p\<lparr>c := (c p)(k \<mapsto> obj1)\<rparr>) w1)
                       else load_v1 cd key k obj p w1)))"

definition Get_v1 ::
  "'o codec \<Rightarrow> string \<Rightarrow> 'o \<Rightarrow> 'o cache_v1 \<Rightarrow> world
     \<Rightarrow> (error option \<times> 'o \<times> 'o cache_v1 \<times> world) run" where
  "Get_v1 cd key obj p w =
     (case checkCacheUpdate_v1 (Namespace cd obj) key p w of
        Panic m \<Rightarrow> Panic m
      | Blocked \<Rightarrow> Blocked
      | Done (p1, w1) \<Rightarrow> get_v1 cd key obj p1 w1)"

definition parseAndDo_v1 ::
  "string \<Rightarrow> 'o cache_v1 \<Rightarrow> world \<Rightarrow> error option \<times> 'o cache_v1 \<times> world" where
  "parseAndDo_v1 k p w =
     (case splitKey k of
        (namespace, key) \<Rightarrow>
          (case loaders p namespace of
             None \<Rightarrow> (Some DataLoaderNotFound, p, w)
           | Some loader \<Rightarrow>
               (let w1 = log (Load namespace key) w
                in case loader key of
                     Inl err \<Rightarrow> (Some err, p, w1)
                   | Inr data \<Rightarrow> (None, p\<lparr>c := (c p)(k \<mapsto> data)\<rparr>, w1))))"

definition Refresh_v1 ::
  "'o codec \<Rightarrow> string \<Rightarrow> string \<Rightarrow> 'o cache_v1 \<Rightarrow> world \<Rightarrow> ('o cache_v1 \<times> world) run" where
  "Refresh_v1 cd namespace key p w =
     (case loaders p namespace of
        None \<Rightarrow> Done (p, w)
      | Some loader \<Rightarrow>
          (let w1 = log (Load namespace key) w
           in case loader key of
                Inl err \<Rightarrow> Done (p, w1)
              | Inr data \<Rightarrow>
                  (let k = jointKey [namespace, key]
                   in case rdb p of
                        None \<Rightarrow> nilDeref
                      | Some client \<Rightarrow>
                          (let w2 = redis_Set k (toJson cd data) w1;
                               p1 = p\<lparr>c := (c p)(k \<mapsto> data)\<rparr>;
                               vk = jointKey [''version'', k]
                           in case redis_Incr vk w2 of
                                ((recNo, None), w3) \<Rightarrow>
                                  Done (p1\<lparr>version := (version p1)(k \<mapsto> recNo)\<rparr>, w3)
                              | ((recNo, Some err), w3) \<Rightarrow> Done (p1, w3)))))"

subsection \<open>Revisions 2 and 3: src/unnamed/part\_000 and src/cache\_test.go\<close>

text \<open>
  The local tier now stores serialized strings. Revision 2 queues keys, revision 3 queues
  \<open>versionInfo\<close>. A definition with suffix \<open>_v3\<close> whose type leaves \<open>'u\<close> open is the same
  text in part\_000 (where \<open>toJson\<close> is called \<open>jsonString\<close>).
\<close>

type_synonym ('u, 'o) cache_lk = "(string, 'u, CacheConfig, 'o) levelCache_lk"
type_synonym 'o cache_v2 = "(string, 'o) cache_lk"
type_synonym 'o cache_v3 = "(versionInfo, 'o) cache_lk"

definition defaultCacheInvalidInterval :: Duration where
  "defaultCacheInvalidInterval = 1440 * Minute"

definition defaultCleanupInterval :: Duration where
  "defaultCleanupInterval = 1441 * Minute"

definition defaultMaxUpdateBuffer :: int where
  "defaultMaxUpdateBuffer = 100"

definition defaultUpdateLockInterval :: Duration where
  "defaultUpdateLockInterval = Minute"

definition checkAndLoadDefault :: "CacheConfig \<Rightarrow> error + CacheConfig" where
  "checkAndLoadDefault cf =
     (if RedisAddr cf = [] then Inl (Errorf ''invalid redis connect addr'')
      else
        (let cf1 = (if RedisPoolSize cf = 0 then cf\<lparr>RedisPoolSize := 40\<rparr> else cf);
             cf2 = (if CacheExpiration cf1 = 0
                    then cf1\<lparr>CacheExpiration := defaultCacheInvalidInterval\<rparr> else cf1);
             cf3 = (if CleanupInterval cf2 = 0
                    then cf2\<lparr>CleanupInterval := defaultCleanupInterval\<rparr> else cf2);
             cf4 = (if LockInterval cf3 = 0
                    then cf3\<lparr>LockInterval := defaultUpdateLockInterval\<rparr> else cf3);
             cf5 = (if MaxUpdateBuffer cf4 = 0
                    then cf4\<lparr>MaxUpdateBuffer := defaultMaxUpdateBuffer\<rparr> else cf4)
         in Inr cf5))"

text \<open>\<^verbatim>\<open>make(chan T, n)\<close> panics when \<open>n\<close> is negative.\<close>

definition New_v2 :: "CacheConfig \<Rightarrow> world \<Rightarrow> ((error + 'o cache_v2) \<times> world) run" where
  "New_v2 cf w =
     (if MaxUpdateBuffer cf < 0 then Panic ''makechan: size out of range''
      else
        (let lc = \<lparr>c = Map.empty, rdb = None, loaders = Map.empty, cfg = cf,
                   version = Map.empty, updates = make_chan (nat (MaxUpdateBuffer cf)),
                   stop = make_chan 1, locker = None\<rparr>;
             client = \<lparr>Addr = RedisAddr cf, Password = RedisPassword cf, DB = RedisDb cf\<rparr>
         in case redis_Ping w of
              (Some err, w1) \<Rightarrow> Done (Inl err, w1)
            | (None, w1) \<Rightarrow> Done (Inr (lc\<lparr>locker := Some client\<rparr>), w1)))"

definition New_v3 :: "CacheConfig \<Rightarrow> world \<Rightarrow> ((error + 'o cache_v3) \<times> world) run" where
  "New_v3 cf0 w =
     (case checkAndLoadDefault cf0 of
        Inl err \<Rightarrow> Done (Inl err, w)
      | Inr cf \<Rightarrow>
          if MaxUpdateBuffer cf < 0 then Panic ''makechan: size out of range''
          else
            (let lc = \<lparr>c = Map.empty, rdb = None, loaders = Map.empty, cfg = cf,
                       version = Map.empty, updates = make_chan (nat (MaxUpdateBuffer cf)),
                       stop = make_chan 1, locker = None\<rparr>;
                 client = \<lparr>Addr = RedisAddr cf, Password = RedisPassword cf, DB = RedisDb cf\<rparr>
             in case redis_Ping w of
                  (Some err, w1) \<Rightarrow> Done (Inl err, w1)
                | (None, w1) \<Rightarrow>
                    Done (Inr (lc\<lparr>rdb := Some client, locker := Some client\<rparr>), w1)))"

definition RegisterLoader_v3 ::
  "string \<Rightarrow> 'o DataLoader \<Rightarrow> ('u, 'o) cache_lk \<Rightarrow> error option \<times> ('u, 'o) cache_lk" where
  "RegisterLoader_v3 namespace loader p =
     (case loaders p namespace of
        Some l \<Rightarrow> (Some (Errorf (''data loader ['' @ namespace @ ''] existed'')), p)
      | None \<Rightarrow> (None, p\<lparr>loaders := (loaders p)(namespace \<mapsto> loader)\<rparr>))"

text \<open>The loader part of \<open>get\<close>: part\_000 lines 153 to 169, cache\_test.go lines 220 to 236.\<close>

definition load_v3 ::
  "'o codec \<Rightarrow> string \<Rightarrow> string \<Rightarrow> 'o \<Rightarrow> ('u, 'o) cache_lk \<Rightarrow> world
     \<Rightarrow> (error option \<times> 'o \<times> ('u, 'o) cache_lk \<times> world) run" where
  "load_v3 cd key k obj p w =
     (case loaders p (Namespace cd obj) of
        None \<Rightarrow>
          Done (Some (Errorf (''data loader ['' @ Namespace cd obj @ ''] not found'')), obj, p, w)
      | Some loader \<Rightarrow>
          (let w1 = log (Load (Namespace cd obj) key) w
           in case loader key of
                Inl err \<Rightarrow> Done (Some err, obj, p, w1)
              | Inr data \<Rightarrow>
                  (case Copy cd obj data of
                     (obj1, Some err) \<Rightarrow> Done (Some err, obj1, p, w1)
                   | (obj1, None) \<Rightarrow>
                       (case rdb p of
                          None \<Rightarrow> nilDeref
                        | Some client \<Rightarrow>
                            (let w2 = redis_Set k (toJson cd obj1) w1;
                                 p1 = p\<lparr>c := (c p)(k \<mapsto> toJson cd obj1)\<rparr>;
                                 p2 = (if version p1 k = None
                                       then p1\<lparr>version := (version p1)(k \<mapsto> 0)\<rparr>
                                       else p1)
                             in Done (None, obj1, p2, w2))))))"

text \<open>The local hit, the same in both revisions (\<open>content.(string)\<close> always holds).\<close>

definition local_hit ::
  "'o codec \<Rightarrow> string \<Rightarrow> 'o \<Rightarrow> 'p \<Rightarrow> world \<Rightarrow> (error option \<times> 'o \<times> 'p \<times> world) run" where
  "local_hit cd content obj p w =
     (case Unmarshal cd content obj of
        (obj1, Some err) \<Rightarrow> Done (Some err, obj1, p, w)
      | (obj1, None) \<Rightarrow> Done (None, obj1, p, w))"

text \<open>part\_000 reads the remote tier under \<open>key\<close>, cache\_test.go under \<open>k\<close>.\<close>

definition get_v2 ::
  "'o codec \<Rightarrow> string \<Rightarrow> 'o \<Rightarrow> 'o cache_v2 \<Rightarrow> world
     \<Rightarrow> (error option \<times> 'o \<times> 'o cache_v2 \<times> world) run" where
  "get_v2 cd key obj p w =
     (let k = jointKey [Namespace cd obj, key]
      in case c p k of
           Some content \<Rightarrow> local_hit cd content obj p w
         | None \<Rightarrow>
             (case rdb p of
                None \<Rightarrow> nilDeref
              | Some client \<Rightarrow>
                  (case redis_Get key w of
                     ((content, err), w1) \<Rightarrow>
                       if err \<noteq> None \<and> err \<noteq> Some RedisNil then Done (err, obj, p, w1)
                       else if content \<noteq> []
                       then (case Unmarshal cd content obj of
                               (obj1, Some e) \<Rightarrow> Done (Some e, obj1, p, w1)
                             | (obj1, None) \<Rightarrow>
                                 load_v3 cd key k obj1
                                   (p\<lparr>c := (c p)(k \<mapsto> toJson cd obj1)\<rparr>) w1)
                       else load_v3 cd key k obj p w1)))"

definition get_v3 ::
  "'o codec \<Rightarrow> string \<Rightarrow> 'o \<Rightarrow> 'o cache_v3 \<Rightarrow> world
     \<Rightarrow> (error option \<times> 'o \<times> 'o cache_v3 \<times> world) run" where
  "get_v3 cd key obj p w =
     (let k = jointKey [Namespace cd obj, key]
      in case c p k of
           Some content \<Rightarrow> local_hit cd content obj p w
         | None \<Rightarrow>
             (case rdb p of
                None \<Rightarrow> nilDeref
              | Some client \<Rightarrow>
                  (case redis_Get k w of
                     ((content, err), w1) \<Rightarrow>
                       if err \<noteq> None \<and> err \<noteq> Some RedisNil then Done (err, obj, p, w1)
                       else if content \<noteq> []
                       then (case Unmarshal cd content obj of
                               (obj1, Some e) \<Rightarrow> Done (Some e, obj1, p, w1)
                             | (obj1, None) \<Rightarrow>
                                 load_v3 cd key k obj1
                                   (p\<lparr>c := (c p)(k \<mapsto> toJson cd obj1)\<rparr>) w1)
                       else load_v3 cd key k obj p w1)))"

definition checkCacheUpdate_v3 ::
  "string \<Rightarrow> string \<Rightarrow> 'o cache_v3 \<Rightarrow> world \<Rightarrow> ('o cache_v3 \<times> world) run" where
  "checkCacheUpdate_v3 namespace key p w =
     (let k = jointKey [namespace, key];
          vk = jointKey [namespace, key, ''version'']
      in case rdb p of
           None \<Rightarrow> nilDeref
         | Some client \<Rightarrow>
             (case redis_Get vk w of
                ((latestContent, err), w1) \<Rightarrow>
                  if err \<noteq> None then Done (p, w1)
                  else (case ParseInt latestContent of
                          Inl e \<Rightarrow> Done (p, w1)
                        | Inr latest \<Rightarrow>
                            (case version p k of
                               None \<Rightarrow> Done (p, w1)
                             | Some current \<Rightarrow>
                                 if latest \<noteq> current
                                 then (case send \<lparr>dataKey = k, versionNo = latest\<rparr> (updates p) of
                                         None \<Rightarrow> Blocked
                                       | Some ch \<Rightarrow> Done (p\<lparr>updates := ch\<rparr>, w1))
                                 else Done (p, w1)))))"

definition Get_v2 ::
  "'o codec \<Rightarrow> string \<Rightarrow> 'o \<Rightarrow> 'o cache_v2 \<Rightarrow> world
     \<Rightarrow> (error option \<times> 'o \<times> 'o cache_v2 \<times> world) run" where
  "Get_v2 cd key obj p w =
     (case checkCacheUpdate_v1 (Namespace cd obj) key p w of
        Panic m \<Rightarrow> Panic m
      | Blocked \<Rightarrow> Blocked
      | Done (p1, w1) \<Rightarrow> get_v2 cd key obj p1 w1)"

definition Get_v3 ::
  "'o codec \<Rightarrow> string \<Rightarrow> 'o \<Rightarrow> 'o cache_v3 \<Rightarrow> world
     \<Rightarrow> (error option \<times> 'o \<times> 'o cache_v3 \<times> world) run" where
  "Get_v3 cd key obj p w =
     (case checkCacheUpdate_v3 (Namespace cd obj) key p w of
        Panic m \<Rightarrow> Panic m
      | Blocked \<Rightarrow> Blocked
      | Done (p1, w1) \<Rightarrow> get_v3 cd key obj p1 w1)"

definition parseAndDo_v2 ::
  "string \<Rightarrow> 'o cache_v2 \<Rightarrow> world \<Rightarrow> (error option \<times> 'o cache_v2 \<times> world) run" where
  "parseAndDo_v2 k p w =
     (case rdb p of
        None \<Rightarrow> nilDeref
      | Some client \<Rightarrow>
          (case redis_Get k w of
             ((content, Some err), w1) \<Rightarrow> Done (Some err, p, w1)
           | ((content, None), w1) \<Rightarrow> Done (None, p\<lparr>c := (c p)(k \<mapsto> content)\<rparr>, w1)))"

definition parseAndDo_v3 ::
  "versionInfo \<Rightarrow> 'o cache_v3 \<Rightarrow> world \<Rightarrow> (error option \<times> 'o cache_v3 \<times> world) run" where
  "parseAndDo_v3 info p w =
     (case rdb p of
        None \<Rightarrow> nilDeref
      | Some client \<Rightarrow>
          (case redis_Get (dataKey info) w of
             ((content, Some err), w1) \<Rightarrow> Done (Some err, p, w1)
           | ((content, None), w1) \<Rightarrow>
               (let p1 = p\<lparr>version := (version p)(dataKey info \<mapsto> versionNo info)\<rparr>
                in Done (None, p1\<lparr>c := (c p1)(dataKey info \<mapsto> content)\<rparr>, w1))))"

text \<open>
  One turn of the worker started by \<open>Start\<close>: it takes the oldest notification from
  \<open>updates\<close> and hands it to \<open>parseAndDo\<close>, whose error it drops. \<open>None\<close>: nothing waits.
\<close>

definition worker_step_v3 :: "'o cache_v3 \<Rightarrow> world \<Rightarrow> ('o cache_v3 \<times> world) run option" where
  "worker_step_v3 p w =
     (case buf (updates p) of
        [] \<Rightarrow> None
      | update # rest \<Rightarrow>
          Some (case parseAndDo_v3 update (p\<lparr>updates := (updates p)\<lparr>buf := rest\<rparr>\<rparr>) w of
                  Panic m \<Rightarrow> Panic m
                | Blocked \<Rightarrow> Blocked
                | Done (err, p1, w1) \<Rightarrow> Done (p1, w1)))"

text \<open>
  The goroutine of \<open>Refresh\<close>. The list gives the outcome of each call of
  \<open>locker.Obtain\<close>, in order; \<open>None\<close> means that the goroutine is still retrying when the
  list is used up.
\<close>

fun Refresh_task ::
  "'o codec \<Rightarrow> 'o DataLoader \<Rightarrow> string \<Rightarrow> string \<Rightarrow> bool list \<Rightarrow> ('u, 'o) cache_lk \<Rightarrow> world
     \<Rightarrow> (('u, 'o) cache_lk \<times> world) run option" where
  "Refresh_task cd loader namespace key [] p w = None"
| "Refresh_task cd loader namespace key (obtained # later) p w =
     (let k = jointKey [namespace, key];
          lockKey = jointKey [''lock'', k];
          vk = jointKey [''version'', k]
      in case locker p of
           None \<Rightarrow> Some nilDeref
         | Some lk \<Rightarrow>
             if \<not> obtained
             then Refresh_task cd loader namespace key later p (log (Obtain lockKey False) w)
             else
               (let w1 = log (Load namespace key) (log (Obtain lockKey True) w)
                in case loader key of
                     Inl err \<Rightarrow> Some (Done (p, w1))
                   | Inr data \<Rightarrow>
                       (let p1 = p\<lparr>c := (c p)(k \<mapsto> toJson cd data)\<rparr>
                        in case rdb p of
                             None \<Rightarrow> Some nilDeref
                           | Some client \<Rightarrow>
                               (let w2 = redis_Set k (toJson cd data) w1
                                in case redis_Incr vk w2 of
                                     ((recNo, None), w3) \<Rightarrow>
                                       Some (Done (p1\<lparr>version := (version p1)(k \<mapsto> recNo)\<rparr>,
                                                   log (Release lockKey) w3))
                                   | ((recNo, Some err), w3) \<Rightarrow>
                                       Some (Done (p1, log (Release lockKey) w3))))))"

definition Refresh_v3 ::
  "'o codec \<Rightarrow> string \<Rightarrow> string \<Rightarrow> bool list \<Rightarrow> ('u, 'o) cache_lk \<Rightarrow> world
     \<Rightarrow> (('u, 'o) cache_lk \<times> world) run option" where
  "Refresh_v3 cd namespace key attempts p w =
     (case loaders p namespace of
        None \<Rightarrow> Some (Done (p, w))
      | Some loader \<Rightarrow> Refresh_task cd loader namespace key attempts p w)"

subsection \<open>The example type: src/unnamed/part\_001\<close>

text \<open>\<open>Price\<close> is a float64 in the source; the two literals are whole numbers.\<close>

record Dish =
  ID :: int
  Name :: string
  Taste :: int
  Price :: int
  Comment :: string

definition dish1 :: Dish where
  "dish1 = \<lparr>ID = 1, Name = ''GongBaoJiDing'', Taste = 1, Price = 40, Comment = ''awesome''\<rparr>"

definition dish2 :: Dish where
  "dish2 = \<lparr>ID = 2, Name = ''GongBaoJiDing'', Taste = 0, Price = 100, Comment = ''excellent''\<rparr>"

definition GetDish :: "Dish DataLoader" where
  "GetDish key =
     (if key = ''1'' then Inr dish1
      else if key = ''2'' then Inr dish2
      else Inl (Errorf (''dish ['' @ key @ ''] not found'')))"

text \<open>The zero value of \<open>Dish\<close>, what \<^verbatim>\<open>var hotDish Dish\<close> declares.\<close>

definition emptyDish :: Dish where
  "emptyDish = \<lparr>ID = 0, Name = [], Taste = 0, Price = 0, Comment = []\<rparr>"

text \<open>
  A codec for \<open>Dish\<close>, used to run the model on the test's data. \<open>marshalDish\<close> writes the
  fields under their json tags, as jsoniter does for a name and a comment that need no
  escaping. \<open>unmarshalDish\<close> decodes the encodings of the two dishes that \<open>GetDish\<close>
  knows and refuses every other string; it is applied to those two encodings only.
\<close>

definition marshalDish :: "Dish \<Rightarrow> string" where
  \<open>marshalDish d =
     ''{"id":'' @ show_int (ID d) @ '',"name":"'' @ Name d @ ''","taste":''
       @ show_int (Taste d) @ '',"price":'' @ show_int (Price d)
       @ '',"comment":"'' @ Comment d @ ''"}''\<close>

definition unmarshalDish :: "string \<Rightarrow> Dish \<Rightarrow> Dish \<times> error option" where
  "unmarshalDish s obj =
     (if s = marshalDish dish1 then (dish1, None)
      else if s = marshalDish dish2 then (dish2, None)
      else (obj, Some (CodecError ''cannot decode'')))"

definition dishCodec :: "Dish codec" where
  "dishCodec = \<lparr>Namespace = (\<lambda>d. ''dish''), Marshal = (\<lambda>d. Inr (marshalDish d)),
                 Unmarshal = unmarshalDish, Copy = (\<lambda>obj data. (data, None))\<rparr>"

subsection \<open>The runs of the tests\<close>

text \<open>
  The configuration of cache\_test.go (lines 10 to 13), a reachable and empty remote store,
  and the states that the calls of the tests go through.
\<close>

definition testConfig_v1 :: CacheConfig_v1 where
  "testConfig_v1 =
     \<lparr>CacheConfig_v1.RedisAddr = ''localhost:6379'', CacheConfig_v1.RedisDb = 0,
      RedisPassw = [], CacheConfig_v1.RedisPoolSize = 10, LocalExpiration = 0,
      CacheConfig_v1.CleanupInterval = 0\<rparr>"

definition testConfig :: CacheConfig where
  "testConfig = \<lparr>RedisAddr = ''localhost:6379'', RedisDb = 0, RedisPassword = [],
                  RedisPoolSize = 10, CacheExpiration = 0, CleanupInterval = 0,
                  LockInterval = 0, MaxUpdateBuffer = 0\<rparr>"

definition testClient :: redis_Options where
  "testClient = \<lparr>Addr = ''localhost:6379'', Password = [], DB = 0\<rparr>"

definition cleanWorld :: world where
  "cleanWorld = \<lparr>kv = Map.empty, up = True, trace = []\<rparr>"

definition world0 :: world where
  "world0 = \<lparr>kv = Map.empty, up = True, trace = [Ping]\<rparr>"

definition fresh_v1 :: "Dish cache_v1" where
  "fresh_v1 = \<lparr>c = Map.empty, rdb = None, loaders = Map.empty, cfg = testConfig_v1,
                version = Map.empty, updates = \<lparr>cap = 1000, buf = []\<rparr>,
                stop = \<lparr>cap = 1, buf = []\<rparr>\<rparr>"

definition fresh_v2 :: "Dish cache_v2" where
  "fresh_v2 = \<lparr>c = Map.empty, rdb = None, loaders = Map.empty, cfg = testConfig,
                version = Map.empty, updates = \<lparr>cap = 0, buf = []\<rparr>,
                stop = \<lparr>cap = 1, buf = []\<rparr>, locker = Some testClient\<rparr>"

definition fresh_v3 :: "Dish cache_v3" where
  "fresh_v3 =
     \<lparr>c = Map.empty, rdb = Some testClient, loaders = Map.empty,
      cfg = testConfig\<lparr>CacheExpiration := 1440 * Minute, CleanupInterval := 1441 * Minute,
                        LockInterval := Minute, MaxUpdateBuffer := 100\<rparr>,
      version = Map.empty, updates = \<lparr>cap = 100, buf = []\<rparr>,
      stop = \<lparr>cap = 1, buf = []\<rparr>, locker = Some testClient\<rparr>"

definition ready_v3 :: "Dish cache_v3" where
  "ready_v3 = fresh_v3\<lparr>loaders := [''dish'' \<mapsto> GetDish]\<rparr>"

text \<open>After the first \<open>Get\<close> of dish 1.\<close>

definition seen_v3 :: "Dish cache_v3" where
  "seen_v3 = ready_v3\<lparr>c := [''dish#$#1'' \<mapsto> marshalDish dish1],
                      version := [''dish#$#1'' \<mapsto> 0]\<rparr>"

definition world1 :: world where
  "world1 =
     \<lparr>kv = [''dish#$#1'' \<mapsto> marshalDish dish1], up = True,
      trace = [Ping, RGet ''dish#$#1#$#version'', RGet ''dish#$#1'', Load ''dish'' ''1'',
               RSet ''dish#$#1'' (marshalDish dish1)]\<rparr>"

text \<open>After a \<open>Refresh\<close> of dish 1 by a second instance on the same remote store.\<close>

definition refreshed_v3 :: "Dish cache_v3" where
  "refreshed_v3 = ready_v3\<lparr>c := [''dish#$#1'' \<mapsto> marshalDish dish1],
                           version := [''dish#$#1'' \<mapsto> 1]\<rparr>"

definition world2 :: world where
  "world2 =
     \<lparr>kv = [''dish#$#1'' \<mapsto> marshalDish dish1, ''version#$#dish#$#1'' \<mapsto> ''1''],
      up = True,
      trace = trace world1 @
        [Obtain ''lock#$#dish#$#1'' True, Load ''dish'' ''1'',
         RSet ''dish#$#1'' (marshalDish dish1), RIncr ''version#$#dish#$#1'',
         Release ''lock#$#dish#$#1'']\<rparr>"

text \<open>
  A remote store where other instances have refreshed dish 1 five times; the counter is
  written under both spellings of the version key.
\<close>

definition world5 :: world where
  "world5 =
     \<lparr>kv = [''dish#$#1#$#version'' \<mapsto> ''5'', ''version#$#dish#$#1'' \<mapsto> ''5''],
      up = True, trace = [Ping]\<rparr>"

definition world6 :: world where
  "world6 =
     \<lparr>kv = [''dish#$#1#$#version'' \<mapsto> ''5'', ''version#$#dish#$#1'' \<mapsto> ''5'',
            ''dish#$#1'' \<mapsto> marshalDish dish1],
      up = True,
      trace = [Ping, RGet ''dish#$#1#$#version'', RGet ''dish#$#1'', Load ''dish'' ''1'',
               RSet ''dish#$#1'' (marshalDish dish1)]\<rparr>"

text \<open>
  The remote store after the first \<open>Get\<close> with the counter at 2 under the key that
  \<open>checkCacheUpdate\<close> reads; the instance once its check has queued the notification, and
  once the worker has applied it.
\<close>

definition world_c2 :: world where
  "world_c2 =
     \<lparr>kv = [''dish#$#1'' \<mapsto> marshalDish dish1, ''dish#$#1#$#version'' \<mapsto> ''2''],
      up = True, trace = trace world1\<rparr>"

definition queued_v3 :: "Dish cache_v3" where
  "queued_v3 =
     seen_v3\<lparr>updates := \<lparr>cap = 100, buf = [\<lparr>dataKey = ''dish#$#1'', versionNo = 2\<rparr>]\<rparr>\<rparr>"

definition applied_v3 :: "Dish cache_v3" where
  "applied_v3 = seen_v3\<lparr>version := [''dish#$#1'' \<mapsto> 2]\<rparr>"

text \<open>Revision 1 with the client set by hand and the loader registered.\<close>

definition wired_v1 :: "Dish cache_v1" where
  "wired_v1 = fresh_v1\<lparr>rdb := Some testClient, loaders := [''dish'' \<mapsto> GetDish]\<rparr>"

text \<open>
  A loader that answers every key with dish 1, and the instance of the first \<open>Get\<close> with
  this loader in place of \<open>GetDish\<close>. Its \<open>Get\<close> of the key \<open>1#$#version\<close> stores the
  dish under \<open>dish#$#1#$#version\<close>, the key of the version counter of dish 1.
\<close>

definition anyDish :: "Dish DataLoader" where
  "anyDish key = Inr dish1"

definition seen_any :: "Dish cache_v3" where
  "seen_any = seen_v3\<lparr>loaders := [''dish'' \<mapsto> anyDish]\<rparr>"

definition clash_any :: "Dish cache_v3" where
  "clash_any =
     seen_any\<lparr>c := [''dish#$#1'' \<mapsto> marshalDish dish1,
                      ''dish#$#1#$#version'' \<mapsto> marshalDish dish1],
               version := [''dish#$#1'' \<mapsto> 0, ''dish#$#1#$#version'' \<mapsto> 0]\<rparr>"

definition world_clash :: world where
  "world_clash =
     \<lparr>kv = [''dish#$#1'' \<mapsto> marshalDish dish1,
            ''dish#$#1#$#version'' \<mapsto> marshalDish dish1],
      up = True,
      trace = trace world1 @
        [RGet ''dish#$#1#$#version#$#version'', RGet ''dish#$#1#$#version'',
         Load ''dish'' ''1#$#version'',
         RSet ''dish#$#1#$#version'' (marshalDish dish1)]\<rparr>"

subsection \<open>The shadow version against the remote counter\<close>

text \<open>
  \<open>shadow_le vk k p w\<close>: the remote store holds a non-negative integer under \<open>vk\<close>, the
  shadow version of \<open>k\<close> (if there is one) does not exceed it, and neither does the
  version number of any queued notification for \<open>k\<close>.
\<close>

definition shadow_le :: "string \<Rightarrow> string \<Rightarrow> 'o cache_v3 \<Rightarrow> world \<Rightarrow> bool" where
  "shadow_le vk k p w =
     (case counter_of w vk of
        None \<Rightarrow> False
      | Some n \<Rightarrow>
          0 \<le> n \<and>
          (case version p k of None \<Rightarrow> True | Some v \<Rightarrow> v \<le> n) \<and>
          list_all (\<lambda>i. dataKey i = k \<longrightarrow> versionNo i \<le> n) (buf (updates p)))"

text \<open>
  Runs of one instance: a sequence of calls of \<open>Get\<close> and of turns of the worker, each
  run to its end before the next starts. A turn of the worker with an empty queue is a
  turn in which it goes on waiting. The run stops at the first call that panics or
  blocks.
\<close>

datatype 'o op = DoGet string 'o | DoWork

fun run_ops ::
  "'o codec \<Rightarrow> 'o op list \<Rightarrow> 'o cache_v3 \<Rightarrow> world \<Rightarrow> ('o cache_v3 \<times> world) run" where
  "run_ops cd [] p w = Done (p, w)"
| "run_ops cd (DoGet key obj # ops) p w =
     (case Get_v3 cd key obj p w of
        Panic m \<Rightarrow> Panic m
      | Blocked \<Rightarrow> Blocked
      | Done (err, obj1, p1, w1) \<Rightarrow> run_ops cd ops p1 w1)"
| "run_ops cd (DoWork # ops) p w =
     (case worker_step_v3 p w of
        None \<Rightarrow> run_ops cd ops p w
      | Some (Panic m) \<Rightarrow> Panic m
      | Some Blocked \<Rightarrow> Blocked
      | Some (Done (p1, w1)) \<Rightarrow> run_ops cd ops p1 w1)"

text \<open>
  \<open>spares cd vk x\<close>: the call \<open>x\<close> does not store a value under the key \<open>vk\<close>.
\<close>

definition spares :: "'o codec \<Rightarrow> string \<Rightarrow> 'o op \<Rightarrow> bool" where
  "spares cd vk x =
     (case x of DoGet key obj \<Rightarrow> jointKey [Namespace cd obj, key] \<noteq> vk | DoWork \<Rightarrow> True)"

section \<open>Running the model\<close>

lemmas redis_defs =
  redis_Ping_def redis_Get_def redis_Set_def redis_Incr_def counter_of_def log_def

lemmas run_defs =
  testConfig_def testConfig_v1_def testClient_def cleanWorld_def world0_def fresh_v1_def
  fresh_v2_def fresh_v3_def ready_v3_def seen_v3_def world1_def refreshed_v3_def world2_def
  world5_def world6_def world_c2_def queued_v3_def applied_v3_def wired_v1_def
  anyDish_def seen_any_def clash_any_def world_clash_def

lemma show_int_small:
  "show_int 0 = ''0''" "show_int 1 = ''1''" "show_int 2 = ''2''" "show_int 40 = ''40''"
  "show_int 100 = ''100''"
  by (simp_all add: show_int_def show_nat.simps digit_char_def)

lemma marshalDish_nonempty: "marshalDish d \<noteq> []"
  by (simp add: marshalDish_def)

lemma marshalDish_dish2_neq: "marshalDish dish2 \<noteq> marshalDish dish1"
  by (simp add: marshalDish_def dish1_def dish2_def show_int_small)

lemma dishCodec_simps:
  "Namespace dishCodec d = ''dish''"
  "toJson dishCodec d = marshalDish d"
  "Unmarshal dishCodec (marshalDish dish1) obj = (dish1, None)"
  "Unmarshal dishCodec (marshalDish dish2) obj = (dish2, None)"
  "Copy dishCodec obj data = (data, None)"
  by (simp_all add: dishCodec_def toJson_def unmarshalDish_def marshalDish_dish2_neq)

lemma GetDish_simps:
  "GetDish ''1'' = Inr dish1" "GetDish ''2'' = Inr dish2"
  "GetDish ''3'' = Inl (Errorf ''dish [3] not found'')"
  by (simp_all add: GetDish_def)

lemmas dish_defs = dishCodec_simps GetDish_simps marshalDish_nonempty Let_def show_int_small

lemmas get_v3_defs =
  Get_v3_def get_v3_def checkCacheUpdate_v3_def load_v3_def local_hit_def send_def

lemmas get_v1_defs =
  Get_v1_def get_v1_def checkCacheUpdate_v1_def load_v1_def send_def

text \<open>The calls of \<open>TestLevelCache_Get\<close>, in revision 3.\<close>

lemma New_v3_run: "New_v3 testConfig cleanWorld = Done (Inr fresh_v3, world0)"
  by (simp add: New_v3_def checkAndLoadDefault_def redis_defs run_defs make_chan_def Let_def
      defaultCacheInvalidInterval_def defaultCleanupInterval_def defaultMaxUpdateBuffer_def
      defaultUpdateLockInterval_def)

lemma RegisterLoader_v3_run: "RegisterLoader_v3 ''dish'' GetDish fresh_v3 = (None, ready_v3)"
  by (simp add: RegisterLoader_v3_def run_defs)

lemma first_Get_v3_run:
  "Get_v3 dishCodec ''1'' emptyDish ready_v3 world0 = Done (None, dish1, seen_v3, world1)"
  by (simp add: get_v3_defs redis_defs run_defs dish_defs cacheKeyJoint_def)

section \<open>Lemmas on the model\<close>

subsection \<open>Keys, the remote store, the version check and the read path\<close>

lemma jointKey_version_neq: "jointKey [a, b, ''version''] \<noteq> jointKey [a, b]"
  by (simp add: cacheKeyJoint_def)

lemma version_jointKey_neq: "jointKey [''version'', k] \<noteq> k" "k \<noteq> jointKey [''version'', k]"
  by (auto simp: cacheKeyJoint_def dest: arg_cong [where f = length])

lemma redis_Get_miss:
  "up w \<Longrightarrow> kv w k = None \<Longrightarrow> redis_Get k w = (([], Some RedisNil), log (RGet k) w)"
  by (simp add: redis_Get_def)

lemma redis_Get_hit:
  "up w \<Longrightarrow> kv w k = Some v \<Longrightarrow> redis_Get k w = ((v, None), log (RGet k) w)"
  by (simp add: redis_Get_def)

lemma log_simps [simp]:
  "kv (log e w) = kv w" "up (log e w) = up w" "trace (log e w) = trace w @ [e]"
  by (simp_all add: log_def)

text \<open>What the version check leaves behind when it returns.\<close>

lemma checkCacheUpdate_v3_Done:
  assumes "checkCacheUpdate_v3 namespace key p w = Done (p1, w1)"
  shows "w1 = log (RGet (jointKey [namespace, key, ''version''])) w \<and>
         c p1 = c p \<and> rdb p1 = rdb p \<and> loaders p1 = loaders p \<and>
         version p1 = version p \<and> locker p1 = locker p \<and> rdb p \<noteq> None"
  using assms
  by (auto simp: checkCacheUpdate_v3_def Let_def nilDeref_def redis_Get_def send_def
      split: option.splits if_splits sum.splits prod.splits)

lemma checkCacheUpdate_v3_skips:
  assumes "rdb p = Some client" "version p (jointKey [namespace, key]) = None"
  shows "checkCacheUpdate_v3 namespace key p w
           = Done (p, log (RGet (jointKey [namespace, key, ''version''])) w)"
  using assms
  by (auto simp: checkCacheUpdate_v3_def Let_def redis_Get_def
      split: option.splits if_splits sum.splits prod.splits)

lemma checkCacheUpdate_v3_returns:
  assumes "rdb p = Some client"
    and "version p (jointKey [namespace, key]) = None \<or> length (buf (updates p)) < cap (updates p)"
  shows "\<exists>p1. checkCacheUpdate_v3 namespace key p w
           = Done (p1, log (RGet (jointKey [namespace, key, ''version''])) w)"
  using assms
  by (auto simp: checkCacheUpdate_v3_def Let_def redis_Get_def send_def
      split: option.splits if_splits sum.splits prod.splits)

text \<open>The loader part on a full miss.\<close>

lemma load_v3_success:
  assumes "loaders p (Namespace cd obj) = Some loader" "loader key = Inr data"
    and "Copy cd obj data = (obj1, None)" "rdb p = Some client" "up w"
  shows "load_v3 cd key k obj p w =
           Done (None, obj1,
                 (if version p k = None
                  then p\<lparr>c := (c p)(k \<mapsto> toJson cd obj1), version := (version p)(k \<mapsto> 0)\<rparr>
                  else p\<lparr>c := (c p)(k \<mapsto> toJson cd obj1)\<rparr>),
                 log (RSet k (toJson cd obj1))
                   ((log (Load (Namespace cd obj) key) w)\<lparr>kv := (kv w)(k \<mapsto> toJson cd obj1)\<rparr>))"
  using assms by (simp add: load_v3_def Let_def redis_Set_def log_def)

lemma load_v3_loader_error:
  assumes "loaders p (Namespace cd obj) = Some loader" "loader key = Inl e"
  shows "load_v3 cd key k obj p w = Done (Some e, obj, p, log (Load (Namespace cd obj) key) w)"
  using assms by (simp add: load_v3_def Let_def)

lemma get_v3_full_miss:
  assumes "c p (jointKey [Namespace cd obj, key]) = None"
    and "kv w (jointKey [Namespace cd obj, key]) = None" "rdb p = Some client" "up w"
  shows "get_v3 cd key obj p w =
           load_v3 cd key (jointKey [Namespace cd obj, key]) obj p
             (log (RGet (jointKey [Namespace cd obj, key])) w)"
  using assms by (simp add: get_v3_def Let_def redis_Get_miss del: jointKey.simps)

text \<open>The same facts for src/cache.go, where \<open>get\<close> reads the remote tier under \<open>key\<close>.\<close>

lemma checkCacheUpdate_v1_Done:
  assumes "checkCacheUpdate_v1 namespace key p w = Done (p1, w1)"
  shows "w1 = log (RGet (jointKey [namespace, key, ''version''])) w \<and>
         c p1 = c p \<and> rdb p1 = rdb p \<and> loaders p1 = loaders p \<and>
         version p1 = version p \<and> rdb p \<noteq> None"
  using assms
  by (auto simp: checkCacheUpdate_v1_def Let_def nilDeref_def redis_Get_def send_def
      split: option.splits if_splits sum.splits prod.splits)

lemma checkCacheUpdate_v1_returns:
  assumes "rdb p = Some client"
    and "version p (jointKey [namespace, key]) = None \<or> length (buf (updates p)) < cap (updates p)"
  shows "\<exists>p1. checkCacheUpdate_v1 namespace key p w
           = Done (p1, log (RGet (jointKey [namespace, key, ''version''])) w)"
  using assms
  by (auto simp: checkCacheUpdate_v1_def Let_def redis_Get_def send_def
      split: option.splits if_splits sum.splits prod.splits)

lemma checkCacheUpdate_v1_skips:
  assumes "rdb p = Some client" "version p (jointKey [namespace, key]) = None"
  shows "checkCacheUpdate_v1 namespace key p w
           = Done (p, log (RGet (jointKey [namespace, key, ''version''])) w)"
  using assms
  by (auto simp: checkCacheUpdate_v1_def Let_def redis_Get_def
      split: option.splits if_splits sum.splits prod.splits)

lemma load_v1_success:
  assumes "loaders p (Namespace cd obj) = Some loader" "loader key = Inr data"
    and "Copy cd obj data = (obj1, None)" "rdb p = Some client" "up w"
  shows "load_v1 cd key k obj p w =
           Done (None, obj1,
                 (if version p k = None
                  then p\<lparr>c := (c p)(k \<mapsto> obj1), version := (version p)(k \<mapsto> 0)\<rparr>
                  else p\<lparr>c := (c p)(k \<mapsto> obj1)\<rparr>),
                 log (RSet k (toJson cd obj1))
                   ((log (Load (Namespace cd obj) key) w)\<lparr>kv := (kv w)(k \<mapsto> toJson cd obj1)\<rparr>))"
  using assms by (simp add: load_v1_def Let_def redis_Set_def log_def)

lemma load_v1_loader_error:
  assumes "loaders p (Namespace cd obj) = Some loader" "loader key = Inl e"
  shows "load_v1 cd key k obj p w = Done (Some e, obj, p, log (Load (Namespace cd obj) key) w)"
  using assms by (simp add: load_v1_def Let_def)

lemma get_v1_full_miss:
  assumes "c p (jointKey [Namespace cd obj, key]) = None"
    and "kv w key = None" "rdb p = Some client" "up w"
  shows "get_v1 cd key obj p w =
           load_v1 cd key (jointKey [Namespace cd obj, key]) obj p (log (RGet key) w)"
  using assms by (simp add: get_v1_def Let_def redis_Get_miss del: jointKey.simps)

text \<open>A \<open>Get\<close> that succeeds leaves the entry in the local tier.\<close>

lemma load_v3_success_fills:
  assumes "load_v3 cd key k obj p w = Done (None, obj1, p1, w1)"
  shows "c p1 k \<noteq> None \<and> rdb p1 = rdb p"
  using assms
  by (auto simp: load_v3_def Let_def nilDeref_def
      split: option.splits if_splits sum.splits prod.splits)

lemma get_v3_success_fills:
  assumes "get_v3 cd key obj p w = Done (None, obj1, p1, w1)"
  shows "c p1 (jointKey [Namespace cd obj, key]) \<noteq> None \<and> rdb p1 = rdb p"
  using assms
  by (auto simp: get_v3_def local_hit_def Let_def nilDeref_def
      split: option.splits if_splits sum.splits prod.splits
      dest!: load_v3_success_fills simp del: jointKey.simps)

lemma Get_v3_success_fills:
  assumes "Get_v3 cd key obj p w = Done (None, obj1, p1, w1)"
  shows "c p1 (jointKey [Namespace cd obj, key]) \<noteq> None \<and> rdb p1 \<noteq> None"
proof -
  from assms obtain p0 w0 where
    chk: "checkCacheUpdate_v3 (Namespace cd obj) key p w = Done (p0, w0)"
    and g: "get_v3 cd key obj p0 w0 = Done (None, obj1, p1, w1)"
    by (auto simp: Get_v3_def split: run.splits)
  from checkCacheUpdate_v3_Done [OF chk] get_v3_success_fills [OF g] show ?thesis
    by simp
qed

lemma get_v3_local_hit:
  assumes "c p (jointKey [Namespace cd obj, key]) = Some content"
  shows "get_v3 cd key obj p w =
           Done (snd (Unmarshal cd content obj), fst (Unmarshal cd content obj), p, w)"
  using assms
  by (cases "Unmarshal cd content obj")
    (auto simp: get_v3_def local_hit_def Let_def split: option.splits simp del: jointKey.simps)

subsection \<open>Decimal strings\<close>

lemma digit_of_digit_char: "d < 10 \<Longrightarrow> digit_of (digit_char d) = Some (int d)"
proof -
  assume "d < 10"
  then have "d \<in> {0, 1, 2, 3, 4, 5, 6, 7, 8, 9}"
    by auto
  then show ?thesis
    by (auto simp: digit_of_def digit_char_def)
qed

lemma digit_of_range: "digit_of ch = Some d \<Longrightarrow> 0 \<le> d \<and> d \<le> 9"
  by (auto simp: digit_of_def split: if_splits)

lemma parse_uint_nonneg: "parse_uint s acc = Some n \<Longrightarrow> 0 \<le> acc \<Longrightarrow> 0 \<le> n"
proof (induction s arbitrary: acc)
  case Nil
  then show ?case by simp
next
  case (Cons ch cs)
  then obtain d where d: "digit_of ch = Some d" and rest: "parse_uint cs (10 * acc + d) = Some n"
    by (auto split: option.splits)
  have "0 \<le> 10 * acc + d"
    using digit_of_range [OF d] Cons.prems(2) by simp
  with Cons.IH rest show ?case
    by blast
qed

lemma parse_uint_append:
  "parse_uint (xs @ ys) acc =
     (case parse_uint xs acc of None \<Rightarrow> None | Some a \<Rightarrow> parse_uint ys a)"
  by (induction xs arbitrary: acc) (simp_all split: option.splits)

lemma parse_uint_show_nat: "parse_uint (show_nat n) 0 = Some (int n)"
proof (induction n rule: show_nat.induct)
  case (1 n)
  show ?case
  proof (cases "n < 10")
    case True
    then have "show_nat n = [digit_char n]"
      by (subst show_nat.simps) simp
    with True show ?thesis
      by (simp add: digit_of_digit_char)
  next
    case False
    then have unfold: "show_nat n = show_nat (n div 10) @ [digit_char (n mod 10)]"
      by (subst show_nat.simps) simp
    have ih: "parse_uint (show_nat (n div 10)) 0 = Some (int (n div 10))"
      using "1" False by simp
    have digit: "digit_of (digit_char (n mod 10)) = Some (int (n mod 10))"
      by (simp add: digit_of_digit_char)
    have "parse_uint (show_nat n) 0 = Some (10 * int (n div 10) + int (n mod 10))"
      unfolding unfold parse_uint_append ih using digit by simp
    also have "10 * int (n div 10) + int (n mod 10) = int n"
      by presburger
    finally show ?thesis .
  qed
qed

lemma show_nat_first:
  "\<exists>ch cs. show_nat n = ch # cs \<and> digit_of ch \<noteq> None"
proof (induction n rule: show_nat.induct)
  case (1 n)
  show ?case
  proof (cases "n < 10")
    case True
    then have "show_nat n = [digit_char n]"
      by (subst show_nat.simps) simp
    with True show ?thesis
      by (simp add: digit_of_digit_char)
  next
    case False
    then have unfold: "show_nat n = show_nat (n div 10) @ [digit_char (n mod 10)]"
      by (subst show_nat.simps) simp
    from "1" False obtain ch cs where "show_nat (n div 10) = ch # cs" "digit_of ch \<noteq> None"
      by blast
    then show ?thesis
      unfolding unfold by simp
  qed
qed

lemma digit_of_sign [simp]: "digit_of CHR ''+'' = None" "digit_of CHR ''-'' = None"
  by (simp_all add: digit_of_def)

lemma ParseInt_show_int:
  assumes "- (2 ^ 63) \<le> i" "i < 2 ^ 63"
  shows "ParseInt (show_int i) = Inr i"
proof (cases "i < 0")
  case True
  obtain ch cs where s: "show_nat (nat (- i)) = ch # cs"
    using show_nat_first by blast
  have "parse_uint (show_nat (nat (- i))) 0 = Some (- i)"
    using True by (simp add: parse_uint_show_nat)
  then show ?thesis
    using True assms s by (simp add: ParseInt_def show_int_def)
next
  case False
  obtain ch cs where s: "show_nat (nat i) = ch # cs" and d: "digit_of ch \<noteq> None"
    using show_nat_first by blast
  have "parse_uint (show_nat (nat i)) 0 = Some i"
    using False by (simp add: parse_uint_show_nat)
  moreover have "ch \<noteq> CHR ''+''" "ch \<noteq> CHR ''-''"
    using d by auto
  ultimately show ?thesis
    using False assms s by (simp add: ParseInt_def show_int_def)
qed

lemma redis_int_show_int:
  "- (2 ^ 63) \<le> i \<Longrightarrow> i < 2 ^ 63 \<Longrightarrow> redis_int (show_int i) = Some i"
  by (simp add: redis_int_def ParseInt_show_int)

lemma ParseInt_range:
  assumes "ParseInt s = Inr n"
  shows "- (2 ^ 63) \<le> n \<and> n < 2 ^ 63"
proof -
  from assms obtain ds m where
    p: "parse_uint ds 0 = Some m" and
    r: "(n = m \<and> m < 2 ^ 63) \<or> (n = - m \<and> m \<le> 2 ^ 63)"
    by (auto simp: ParseInt_def Let_def split: list.splits if_splits option.splits
        simp del: parse_uint.simps)
  from parse_uint_nonneg [OF p] have "0 \<le> m"
    by simp
  with r show ?thesis
    by auto
qed

lemma redis_int_ParseInt: "redis_int s = Some n \<Longrightarrow> ParseInt s = Inr n"
  by (auto simp: redis_int_def split: sum.splits if_splits)

lemma redis_int_range: "redis_int s = Some n \<Longrightarrow> - (2 ^ 63) \<le> n \<and> n < 2 ^ 63"
  using ParseInt_range redis_int_ParseInt by blast

lemma counter_of_range: "counter_of w k = Some n \<Longrightarrow> - (2 ^ 63) \<le> n \<and> n < 2 ^ 63"
  by (auto simp: counter_of_def split: option.splits dest: redis_int_range)

lemma redis_Incr_ok:
  assumes "up w" "counter_of w k = Some n" "n + 1 < 2 ^ 63"
  shows "redis_Incr k w = ((n + 1, None), log (RIncr k) (w\<lparr>kv := (kv w)(k \<mapsto> show_int (n + 1))\<rparr>))"
  using assms by (simp add: redis_Incr_def)

lemma counter_of_after_Incr:
  assumes "counter_of w k = Some n" "n + 1 < 2 ^ 63"
  shows "counter_of (w\<lparr>kv := (kv w)(k \<mapsto> show_int (n + 1))\<rparr>) k = Some (n + 1)"
proof -
  have "- (2 ^ 63) \<le> n + 1"
    using counter_of_range [OF assms(1)] by simp
  then show ?thesis
    using assms(2) by (simp add: counter_of_def redis_int_show_int)
qed

subsection \<open>The goroutine of \<open>Refresh\<close>\<close>

lemma Refresh_task_retries:
  assumes "locker p = Some lk"
  shows "Refresh_task cd loader namespace key (replicate m False @ attempts) p w =
         Refresh_task cd loader namespace key attempts p
           (w\<lparr>trace := trace w @
               replicate m (Obtain (jointKey [''lock'', jointKey [namespace, key]]) False)\<rparr>)"
proof (induction m arbitrary: w)
  case 0
  show ?case by simp
next
  case (Suc m)
  show ?case
    using assms by (simp add: Suc.IH Let_def log_def replicate_app_Cons_same del: jointKey.simps)
qed

lemma Refresh_task_loader_error:
  assumes "locker p = Some lk" "loader key = Inl e"
  shows "Refresh_task cd loader namespace key (True # rest) p w =
         Some (Done (p, log (Load namespace key)
                 (log (Obtain (jointKey [''lock'', jointKey [namespace, key]]) True) w)))"
  using assms by (simp add: Let_def del: jointKey.simps)

lemma counter_of_other_key:
  "k' \<noteq> k \<Longrightarrow> counter_of (w\<lparr>kv := (kv w)(k' \<mapsto> v)\<rparr>) k = counter_of w k"
  by (simp add: counter_of_def)

lemma counter_of_log [simp]: "counter_of (log e w) k = counter_of w k"
  by (simp add: counter_of_def)

lemma counter_of_trace [simp]: "counter_of (w\<lparr>trace := t\<rparr>) k = counter_of w k"
  by (simp add: counter_of_def)

lemma Refresh_task_success:
  assumes "locker p = Some lk" "loader key = Inr data" "rdb p = Some client" "up w"
    and "counter_of w (jointKey [''version'', jointKey [namespace, key]]) = Some n"
    and "n + 1 < 2 ^ 63"
  shows "Refresh_task cd loader namespace key (True # rest) p w =
         Some (Done
           (p\<lparr>c := (c p)(jointKey [namespace, key] \<mapsto> toJson cd data),
              version := (version p)(jointKey [namespace, key] \<mapsto> n + 1)\<rparr>,
            w\<lparr>kv := (kv w)(jointKey [namespace, key] \<mapsto> toJson cd data,
                           jointKey [''version'', jointKey [namespace, key]] \<mapsto> show_int (n + 1)),
              trace := trace w @
                [Obtain (jointKey [''lock'', jointKey [namespace, key]]) True,
                 Load namespace key,
                 RSet (jointKey [namespace, key]) (toJson cd data),
                 RIncr (jointKey [''version'', jointKey [namespace, key]]),
                 Release (jointKey [''lock'', jointKey [namespace, key]])]\<rparr>))"
proof -
  let ?k = "jointKey [namespace, key]"
  let ?vk = "jointKey [''version'', ?k]"
  let ?lk = "jointKey [''lock'', ?k]"
  let ?w1 = "log (Load namespace key) (log (Obtain ?lk True) w)"
  let ?w2 = "redis_Set ?k (toJson cd data) ?w1"
  have w2: "?w2 = log (RSet ?k (toJson cd data)) (?w1\<lparr>kv := (kv w)(?k \<mapsto> toJson cd data)\<rparr>)"
    using assms(4) by (simp add: redis_Set_def del: jointKey.simps)
  have "counter_of ?w2 ?vk = Some n"
    unfolding w2 using assms(5) version_jointKey_neq(2) [of ?k]
    by (simp add: counter_of_def del: jointKey.simps)
  moreover have "up ?w2"
    unfolding w2 using assms(4) by simp
  ultimately have
    "redis_Incr ?vk ?w2 =
       ((n + 1, None), log (RIncr ?vk) (?w2\<lparr>kv := (kv ?w2)(?vk \<mapsto> show_int (n + 1))\<rparr>))"
    using assms(6) by (simp add: redis_Incr_ok del: jointKey.simps)
  then have step:
    "Refresh_task cd loader namespace key (True # rest) p w =
       Some (Done
         (p\<lparr>c := (c p)(?k \<mapsto> toJson cd data), version := (version p)(?k \<mapsto> n + 1)\<rparr>,
          log (Release ?lk)
            (log (RIncr ?vk) (?w2\<lparr>kv := (kv ?w2)(?vk \<mapsto> show_int (n + 1))\<rparr>))))"
    using assms(1,2,3) by (simp add: Let_def del: jointKey.simps)
  show ?thesis
    unfolding step w2 by (simp add: log_def del: jointKey.simps)
qed

subsection \<open>What \<open>Get\<close> and the worker do to the shadow version\<close>

lemma counter_of_kv_cong: "kv w1 vk = kv w vk \<Longrightarrow> counter_of w1 vk = counter_of w vk"
  by (simp add: counter_of_def)

lemma redis_Get_found:
  "redis_Get k w = ((content, None), w1) \<Longrightarrow> kv w k = Some content"
  by (simp add: redis_Get_def split: if_splits option.splits)

lemma redis_Set_other: "k' \<noteq> k \<Longrightarrow> kv (redis_Set k v w) k' = kv w k'"
  by (simp add: redis_Set_def)

lemma checkCacheUpdate_v3_queue:
  assumes "checkCacheUpdate_v3 namespace key p w = Done (p1, w1)"
  shows "buf (updates p1) = buf (updates p) \<or>
         (\<exists>content latest.
            kv w (jointKey [namespace, key, ''version'']) = Some content \<and>
            ParseInt content = Inr latest \<and>
            buf (updates p1) =
              buf (updates p) @ [\<lparr>dataKey = jointKey [namespace, key], versionNo = latest\<rparr>])"
proof (cases "buf (updates p1) = buf (updates p)")
  case True
  then show ?thesis by simp
next
  case False
  let ?vk = "jointKey [namespace, key, ''version'']"
  obtain content err w0 where rg: "redis_Get ?vk w = ((content, err), w0)"
    by (metis surj_pair)
  from assms False rg have err: "err = None"
    by (cases err)
      (auto simp: checkCacheUpdate_v3_def Let_def nilDeref_def split: option.splits
        simp del: jointKey.simps)
  from assms False rg err obtain latest where pi: "ParseInt content = Inr latest"
    by (cases "ParseInt content")
      (auto simp: checkCacheUpdate_v3_def Let_def nilDeref_def split: option.splits
        simp del: jointKey.simps)
  from assms False rg err pi
  have "buf (updates p1) =
          buf (updates p) @ [\<lparr>dataKey = jointKey [namespace, key], versionNo = latest\<rparr>]"
    by (auto simp: checkCacheUpdate_v3_def Let_def nilDeref_def send_def
        split: option.splits if_splits simp del: jointKey.simps)
  with redis_Get_found [of ?vk w content w0] rg err pi show ?thesis
    by blast
qed

lemma load_v3_effects:
  assumes "load_v3 cd key k obj p w = Done (r, obj1, p1, w1)"
  shows "updates p1 = updates p \<and> (\<forall>k'. k' \<noteq> k \<longrightarrow> kv w1 k' = kv w k') \<and>
         (version p1 = version p \<or> (version p k = None \<and> version p1 = (version p)(k \<mapsto> 0)))"
proof (cases "loaders p (Namespace cd obj)")
  case None
  with assms show ?thesis
    by (simp add: load_v3_def)
next
  case (Some loader)
  show ?thesis
  proof (cases "loader key")
    case (Inl e)
    with assms Some show ?thesis
      by (auto simp: load_v3_def Let_def)
  next
    case (Inr data)
    obtain obj2 err where cp: "Copy cd obj data = (obj2, err)"
      by (metis surj_pair)
    show ?thesis
    proof (cases err)
      case (Some e)
      with assms \<open>loaders p (Namespace cd obj) = Some loader\<close> Inr cp show ?thesis
        by (auto simp: load_v3_def Let_def)
    next
      case None
      with assms \<open>loaders p (Namespace cd obj) = Some loader\<close> Inr cp show ?thesis
        by (cases "rdb p")
          (auto simp: load_v3_def Let_def nilDeref_def redis_Set_other split: if_splits)
    qed
  qed
qed

lemma redis_Get_result:
  "\<exists>content err. redis_Get k w = ((content, err), log (RGet k) w)"
  by (simp add: redis_Get_def split: option.splits)

lemma get_v3_effects:
  assumes "get_v3 cd key obj p w = Done (r, obj1, p1, w1)"
  shows "updates p1 = updates p \<and>
         (\<forall>k'. k' \<noteq> jointKey [Namespace cd obj, key] \<longrightarrow> kv w1 k' = kv w k') \<and>
         (version p1 = version p \<or>
          (version p (jointKey [Namespace cd obj, key]) = None \<and>
           version p1 = (version p)(jointKey [Namespace cd obj, key] \<mapsto> 0)))"
proof (cases "c p (jointKey [Namespace cd obj, key])")
  case (Some content)
  with assms have "p1 = p" "w1 = w"
    by (auto simp: get_v3_def local_hit_def Let_def split: prod.splits option.splits
        simp del: jointKey.simps)
  then show ?thesis by simp
next
  case None
  let ?k = "jointKey [Namespace cd obj, key]"
  let ?w0 = "log (RGet ?k) w"
  obtain content err where rg: "redis_Get ?k w = ((content, err), ?w0)"
    using redis_Get_result by blast
  from assms None obtain client where cl: "rdb p = Some client"
    by (cases "rdb p") (auto simp: get_v3_def Let_def nilDeref_def simp del: jointKey.simps)
  have unfold: "get_v3 cd key obj p w =
     (if err \<noteq> None \<and> err \<noteq> Some RedisNil then Done (err, obj, p, ?w0)
      else if content \<noteq> []
      then (case Unmarshal cd content obj of
              (obj1, Some e) \<Rightarrow> Done (Some e, obj1, p, ?w0)
            | (obj1, None) \<Rightarrow> load_v3 cd key ?k obj1 (p\<lparr>c := (c p)(?k \<mapsto> toJson cd obj1)\<rparr>) ?w0)
      else load_v3 cd key ?k obj p ?w0)"
    using None cl rg by (simp add: get_v3_def Let_def del: jointKey.simps)
  show ?thesis
  proof (cases "err \<noteq> None \<and> err \<noteq> Some RedisNil")
    case True
    with assms unfold show ?thesis
      by (auto simp del: jointKey.simps)
  next
    case stop: False
    show ?thesis
    proof (cases "content = []")
      case True
      with assms unfold stop have "load_v3 cd key ?k obj p ?w0 = Done (r, obj1, p1, w1)"
        by (auto simp del: jointKey.simps)
      from load_v3_effects [OF this] show ?thesis
        by simp
    next
      case False
      obtain obj2 e2 where um: "Unmarshal cd content obj = (obj2, e2)"
        by (metis surj_pair)
      show ?thesis
      proof (cases e2)
        case (Some e)
        with assms unfold stop False um show ?thesis
          by (auto simp del: jointKey.simps)
      next
        case None
        with assms unfold stop False um
        have "load_v3 cd key ?k obj2 (p\<lparr>c := (c p)(?k \<mapsto> toJson cd obj2)\<rparr>) ?w0
                = Done (r, obj1, p1, w1)"
          by (auto simp del: jointKey.simps)
        from load_v3_effects [OF this] show ?thesis
          by simp
      qed
    qed
  qed
qed

lemma jointKey_same_version:
  "jointKey [a, b] = jointKey [c', d] \<Longrightarrow> jointKey [a, b, x] = jointKey [c', d, x]"
proof -
  assume "jointKey [a, b] = jointKey [c', d]"
  then have "(a @ cacheKeyJoint @ b) @ cacheKeyJoint @ x = (c' @ cacheKeyJoint @ d) @ cacheKeyJoint @ x"
    by simp
  then show ?thesis by simp
qed

lemma Get_v3_keeps_shadow_le:
  assumes inv: "shadow_le (jointKey [ens, ekey, ''version'']) (jointKey [ens, ekey]) p w"
    and run: "Get_v3 cd key obj p w = Done (r, obj1, p1, w1)"
    and apart: "jointKey [Namespace cd obj, key] \<noteq> jointKey [ens, ekey, ''version'']"
  shows "shadow_le (jointKey [ens, ekey, ''version'']) (jointKey [ens, ekey]) p1 w1"
proof -
  let ?k = "jointKey [ens, ekey]"
  let ?vk = "jointKey [ens, ekey, ''version'']"
  let ?k2 = "jointKey [Namespace cd obj, key]"
  let ?vk2 = "jointKey [Namespace cd obj, key, ''version'']"
  from run obtain p0 w0 where
    chk: "checkCacheUpdate_v3 (Namespace cd obj) key p w = Done (p0, w0)"
    and g: "get_v3 cd key obj p0 w0 = Done (r, obj1, p1, w1)"
    by (auto simp: Get_v3_def split: run.splits)
  from inv obtain n where
    n: "counter_of w ?vk = Some n" "0 \<le> n"
    and v: "case version p ?k of None \<Rightarrow> True | Some v \<Rightarrow> v \<le> n"
    and q: "list_all (\<lambda>i. dataKey i = ?k \<longrightarrow> versionNo i \<le> n) (buf (updates p))"
    by (auto simp: shadow_le_def split: option.splits)
  note same = checkCacheUpdate_v3_Done [OF chk]
  have q0: "list_all (\<lambda>i. dataKey i = ?k \<longrightarrow> versionNo i \<le> n) (buf (updates p0))"
    using checkCacheUpdate_v3_queue [OF chk]
  proof
    assume "buf (updates p0) = buf (updates p)"
    with q show ?thesis by simp
  next
    assume "\<exists>content latest. kv w ?vk2 = Some content \<and> ParseInt content = Inr latest \<and>
              buf (updates p0) = buf (updates p) @ [\<lparr>dataKey = ?k2, versionNo = latest\<rparr>]"
    then obtain content latest where
      c: "kv w ?vk2 = Some content" "ParseInt content = Inr latest"
      and b: "buf (updates p0) = buf (updates p) @ [\<lparr>dataKey = ?k2, versionNo = latest\<rparr>]"
      by blast
    have "?k2 = ?k \<longrightarrow> latest \<le> n"
    proof
      assume "?k2 = ?k"
      then have "?vk2 = ?vk"
        by (rule jointKey_same_version)
      with n(1) c(1) have "redis_int content = Some n"
        by (simp add: counter_of_def del: jointKey.simps)
      from redis_int_ParseInt [OF this] c(2) show "latest \<le> n"
        by simp
    qed
    with q b show ?thesis
      by (simp del: jointKey.simps)
  qed
  note eff = get_v3_effects [OF g]
  have kv1: "kv w1 ?vk = kv w ?vk"
    using eff same apart by (simp del: jointKey.simps)
  have v1: "case version p1 ?k of None \<Rightarrow> True | Some v \<Rightarrow> v \<le> n"
    using eff v n(2) same by (auto split: option.splits if_splits simp del: jointKey.simps)
  have q1: "list_all (\<lambda>i. dataKey i = ?k \<longrightarrow> versionNo i \<le> n) (buf (updates p1))"
    using eff q0 by simp
  show ?thesis
    using n v1 q1 counter_of_kv_cong [OF kv1]
    by (simp add: shadow_le_def del: jointKey.simps)
qed

lemma worker_step_v3_keeps_shadow_le:
  assumes inv: "shadow_le vk k p w"
    and run: "worker_step_v3 p w = Some (Done (p1, w1))"
  shows "shadow_le vk k p1 w1"
proof -
  from inv obtain n where
    n: "counter_of w vk = Some n" "0 \<le> n"
    and v: "case version p k of None \<Rightarrow> True | Some v \<Rightarrow> v \<le> n"
    and q: "list_all (\<lambda>i. dataKey i = k \<longrightarrow> versionNo i \<le> n) (buf (updates p))"
    by (auto simp: shadow_le_def split: option.splits)
  from run obtain info rest err where
    b: "buf (updates p) = info # rest"
    and pd: "parseAndDo_v3 info (p\<lparr>updates := (updates p)\<lparr>buf := rest\<rparr>\<rparr>) w = Done (err, p1, w1)"
    by (auto simp: worker_step_v3_def split: list.splits run.splits)
  from pd have w1: "kv w1 = kv w"
    and b1: "buf (updates p1) = rest"
    and ver: "version p1 = version p \<or> version p1 = (version p)(dataKey info \<mapsto> versionNo info)"
    by (auto simp: parseAndDo_v3_def nilDeref_def redis_Get_def Let_def
        split: option.splits if_splits prod.splits)
  have "case version p1 k of None \<Rightarrow> True | Some v \<Rightarrow> v \<le> n"
    using ver v q b by (auto split: option.splits if_splits)
  moreover have "list_all (\<lambda>i. dataKey i = k \<longrightarrow> versionNo i \<le> n) (buf (updates p1))"
    using q b b1 by simp
  moreover have "counter_of w1 vk = Some n"
    using n(1) w1 by (simp add: counter_of_def)
  ultimately show ?thesis
    using n(2) by (simp add: shadow_le_def)
qed

lemma redis_int_small: "redis_int ''1'' = Some 1" "redis_int ''2'' = Some 2" "redis_int ''5'' = Some 5"
  by (simp_all add: redis_int_def ParseInt_def digit_of_def show_int_def show_nat.simps digit_char_def)

lemma ParseInt_small: "ParseInt ''1'' = Inr 1" "ParseInt ''2'' = Inr 2" "ParseInt ''5'' = Inr 5"
  by (simp_all add: ParseInt_def digit_of_def)

lemma redis_int_marshalDish: "redis_int (marshalDish d) = None"
  by (simp add: redis_int_def ParseInt_def marshalDish_def digit_of_def)

section \<open>The claims\<close>

subsection \<open>C1: the key of the version counter\<close>

text \<open>
  src/cache.go computes the two keys in the same way: on an instance whose client is set
  by hand, \<open>Refresh\<close> leaves the counter under \<open>"version#$#dish#$#1"\<close> and the check reads
  \<open>"dish#$#1#$#version"\<close>.
\<close>

lemma Refresh_v1_counter_key:
  "Refresh_v1 dishCodec ''dish'' ''1'' wired_v1 world0 =
     Done (wired_v1\<lparr>c := [''dish#$#1'' \<mapsto> dish1], version := [''dish#$#1'' \<mapsto> 1]\<rparr>,
           \<lparr>kv = [''dish#$#1'' \<mapsto> marshalDish dish1, ''version#$#dish#$#1'' \<mapsto> ''1''],
            up = True,
            trace = [Ping, Load ''dish'' ''1'', RSet ''dish#$#1'' (marshalDish dish1),
                     RIncr ''version#$#dish#$#1'']\<rparr>)"
  by (simp add: Refresh_v1_def redis_defs run_defs dish_defs cacheKeyJoint_def)

lemma checkCacheUpdate_v1_key:
  "checkCacheUpdate_v1 ''dish'' ''1'' wired_v1 world2
     = Done (wired_v1, log (RGet ''dish#$#1#$#version'') world2)"
  by (simp add: checkCacheUpdate_v1_def redis_defs run_defs cacheKeyJoint_def Let_def)

text \<open>
  C1, in every revision: \<open>Refresh\<close> increments the counter under
  \<open>jointKey ["version", k]\<close>, and \<open>checkCacheUpdate\<close> reads \<open>jointKey [namespace, key, "version"]\<close>.
  After the first instance has loaded dish 1 (\<open>seen_v3\<close>, \<open>world1\<close>) and a second instance
  has refreshed it, the counter is 1 under the first key and the second key is unset: the
  check of the first instance, whose shadow version is 0, queues nothing.
\<close>

theorem Refresh_counter_unseen_by_check:
  "Refresh_v3 dishCodec ''dish'' ''1'' [True] ready_v3 world1
     = Some (Done (refreshed_v3, world2)) \<and>
   kv world2 (jointKey [''version'', jointKey [''dish'', ''1'']]) = Some ''1'' \<and>
   kv world2 (jointKey [''dish'', ''1'', ''version'']) = None \<and>
   version seen_v3 (jointKey [''dish'', ''1'']) = Some 0 \<and>
   checkCacheUpdate_v3 ''dish'' ''1'' seen_v3 world2
     = Done (seen_v3, log (RGet ''dish#$#1#$#version'') world2)"
proof -
  have "Refresh_v3 dishCodec ''dish'' ''1'' [True] ready_v3 world1
          = Some (Done (refreshed_v3, world2))"
    by (simp add: Refresh_v3_def redis_defs run_defs dish_defs cacheKeyJoint_def redis_int_def
        ParseInt_def)
  moreover have "checkCacheUpdate_v3 ''dish'' ''1'' seen_v3 world2
                   = Done (seen_v3, log (RGet ''dish#$#1#$#version'') world2)"
    by (simp add: checkCacheUpdate_v3_def redis_defs run_defs dish_defs cacheKeyJoint_def)
  ultimately show ?thesis
    by (simp add: run_defs cacheKeyJoint_def)
qed

subsection \<open>C2: a value found in the remote tier\<close>

text \<open>
  After a remote hit that decodes, \<open>get\<close> is the loader part run on the instance whose
  local tier has just been filled.
\<close>

lemma get_v3_remote_hit_falls_through:
  assumes "c p (jointKey [Namespace cd obj, key]) = None" "rdb p = Some client" "up w"
    and "kv w (jointKey [Namespace cd obj, key]) = Some content" "content \<noteq> []"
    and "Unmarshal cd content obj = (obj1, None)"
  shows "get_v3 cd key obj p w =
           load_v3 cd key (jointKey [Namespace cd obj, key]) obj1
             (p\<lparr>c := (c p)(jointKey [Namespace cd obj, key] \<mapsto> toJson cd obj1)\<rparr>)
             (log (RGet (jointKey [Namespace cd obj, key])) w)"
  using assms by (simp add: get_v3_def Let_def redis_Get_hit del: jointKey.simps)

text \<open>
  In src/cache.go (and part\_000) the remote read uses the bare key: with dish 1 stored
  under its value key, \<open>get\<close> asks for \<open>"1"\<close> and finds nothing.
\<close>

lemma Get_v1_reads_bare_key:
  "Get_v1 dishCodec ''1'' emptyDish wired_v1 world1 =
     Done (None, dish1,
           wired_v1\<lparr>c := [''dish#$#1'' \<mapsto> dish1], version := [''dish#$#1'' \<mapsto> 0]\<rparr>,
           world1\<lparr>trace := trace world1 @
             [RGet ''dish#$#1#$#version'', RGet ''1'', Load ''dish'' ''1'',
              RSet ''dish#$#1'' (marshalDish dish1)]\<rparr>)"
  by (simp add: get_v1_defs redis_defs run_defs dish_defs cacheKeyJoint_def)

text \<open>
  C2, in every revision: after a remote hit \<open>get\<close> decodes the value and fills the local
  tier, and then goes on to the loader. A fresh instance reading dish 1 from a remote
  store that holds it (\<open>world1\<close>) calls \<open>GetDish\<close> and writes the remote value again.
\<close>

theorem Get_v3_remote_hit_calls_loader:
  "kv world1 (jointKey [''dish'', ''1'']) = Some (marshalDish dish1) \<and>
   c ready_v3 (jointKey [''dish'', ''1'']) = None \<and>
   Get_v3 dishCodec ''1'' emptyDish ready_v3 world1 =
     Done (None, dish1, seen_v3,
           world1\<lparr>trace := trace world1 @
             [RGet ''dish#$#1#$#version'', RGet ''dish#$#1'', Load ''dish'' ''1'',
              RSet ''dish#$#1'' (marshalDish dish1)]\<rparr>)"
  by (simp add: get_v3_defs redis_defs run_defs dish_defs cacheKeyJoint_def)

subsection \<open>C3: what \<open>New\<close> initializes\<close>

text \<open>In cache\_test.go every instance that \<open>New\<close> returns has both clients set.\<close>

lemma New_v3_sets_clients:
  "New_v3 cf w = Done (Inr lc, w1) \<Longrightarrow> rdb lc \<noteq> None \<and> locker lc \<noteq> None"
  by (auto simp: New_v3_def Let_def split: sum.splits if_splits prod.splits option.splits)

text \<open>
  C3, in src/cache.go and src/unnamed/part\_000: \<open>New\<close> pings the client it has built and
  then drops it, so \<open>rdb\<close> stays nil and the first \<open>Get\<close> panics in \<open>checkCacheUpdate\<close>.
\<close>

theorem New_v1_v2_leave_rdb_nil:
  "New_v1 testConfig_v1 cleanWorld = (Inr fresh_v1, world0) \<and>
   rdb fresh_v1 = None \<and>
   Get_v1 dishCodec ''1'' emptyDish (RegisterLoader_v1 ''dish'' GetDish fresh_v1) world0
     = nilDeref \<and>
   New_v2 testConfig cleanWorld = Done (Inr fresh_v2, world0) \<and>
   rdb fresh_v2 = None \<and>
   Get_v2 dishCodec ''1'' emptyDish (snd (RegisterLoader_v3 ''dish'' GetDish fresh_v2)) world0
     = nilDeref"
proof -
  have "New_v1 testConfig_v1 cleanWorld = (Inr fresh_v1, world0)"
    by (simp add: New_v1_def redis_defs run_defs make_chan_def maxUpdateLen_def)
  moreover have "New_v2 testConfig cleanWorld = Done (Inr fresh_v2, world0)"
    by (simp add: New_v2_def redis_defs run_defs make_chan_def Let_def)
  moreover have
    "Get_v1 dishCodec ''1'' emptyDish (RegisterLoader_v1 ''dish'' GetDish fresh_v1) world0
       = nilDeref"
    by (simp add: Get_v1_def checkCacheUpdate_v1_def RegisterLoader_v1_def fresh_v1_def
        nilDeref_def)
  moreover have
    "Get_v2 dishCodec ''1'' emptyDish (snd (RegisterLoader_v3 ''dish'' GetDish fresh_v2)) world0
       = nilDeref"
    by (simp add: Get_v2_def checkCacheUpdate_v1_def RegisterLoader_v3_def fresh_v2_def
        nilDeref_def)
  ultimately show ?thesis
    by (simp add: fresh_v1_def fresh_v2_def)
qed

subsection \<open>C4: the worker\<close>

text \<open>
  The worker of src/cache.go calls the loader instead of reading the remote store, and
  the worker of part\_000 reads the remote store but has no version number to set. Neither
  touches the shadow version, and neither is ever handed a notification: the instance
  that \<open>New\<close> returns there has an empty queue and no client, and \<open>checkCacheUpdate\<close>, the
  one place that queues, dereferences the client first.
\<close>

lemma parseAndDo_v1_keeps_version:
  "parseAndDo_v1 k p w = (err, p1, w1) \<Longrightarrow> version p1 = version p \<and> kv w1 = kv w"
  by (auto simp: parseAndDo_v1_def Let_def split: prod.splits option.splits sum.splits)

lemma parseAndDo_v2_keeps_version:
  "parseAndDo_v2 k p w = Done (err, p1, w1) \<Longrightarrow> version p1 = version p"
  by (auto simp: parseAndDo_v2_def nilDeref_def split: option.splits prod.splits)

lemma New_v1_leaves_queue_unfed:
  "New_v1 cf w = (Inr lc, w1) \<Longrightarrow> rdb lc = None \<and> buf (updates lc) = []"
  by (auto simp: New_v1_def Let_def make_chan_def split: prod.splits option.splits)

lemma New_v2_leaves_queue_unfed:
  "New_v2 cf w = Done (Inr lc, w1) \<Longrightarrow> rdb lc = None \<and> buf (updates lc) = []"
  by (auto simp: New_v2_def Let_def make_chan_def
      split: sum.splits if_splits prod.splits option.splits)

lemma checkCacheUpdate_v1_needs_client:
  "rdb p = None \<Longrightarrow> checkCacheUpdate_v1 namespace key p w = nilDeref"
  by (simp add: checkCacheUpdate_v1_def Let_def)

text \<open>
  C4, for the worker of src/cache\_test.go, the revision whose \<open>New\<close> sets the client:
  handed a notification, \<open>parseAndDo\<close> issues one remote command, the read of the
  notification's key, and calls no loader. When the read finds a value, that value
  replaces the local entry and the shadow version becomes the notification's number.
  When the read fails (nothing stored under the key, or the store out of reach), the
  error is returned and the instance is as it was. One turn of the worker takes the
  oldest notification off the queue, does just this and drops the error, so the
  notification is gone in both cases and is not tried again.
\<close>

theorem worker_v3_applies_or_drops:
  assumes "rdb p = Some client"
  shows
    "(up w \<and> kv w (dataKey info) = Some content \<longrightarrow>
        parseAndDo_v3 info p w =
          Done (None,
                p\<lparr>version := (version p)(dataKey info \<mapsto> versionNo info),
                  c := (c p)(dataKey info \<mapsto> content)\<rparr>,
                log (RGet (dataKey info)) w) \<and>
        (buf (updates p) = info # rest \<longrightarrow>
           worker_step_v3 p w =
             Some (Done (p\<lparr>updates := (updates p)\<lparr>buf := rest\<rparr>,
                           version := (version p)(dataKey info \<mapsto> versionNo info),
                           c := (c p)(dataKey info \<mapsto> content)\<rparr>,
                         log (RGet (dataKey info)) w)))) \<and>
     (\<not> up w \<or> kv w (dataKey info) = None \<longrightarrow>
        parseAndDo_v3 info p w =
          Done (Some (if up w then RedisNil else RedisFail ''connection refused''), p,
                log (RGet (dataKey info)) w) \<and>
        (buf (updates p) = info # rest \<longrightarrow>
           worker_step_v3 p w =
             Some (Done (p\<lparr>updates := (updates p)\<lparr>buf := rest\<rparr>\<rparr>,
                         log (RGet (dataKey info)) w))))"
  using assms
  by (auto simp: worker_step_v3_def parseAndDo_v3_def redis_Get_def Let_def)

theorem worker_v3_applies_or_drops_witness:
  "rdb queued_v3 = Some testClient \<and>
   up (log (RGet ''dish#$#1#$#version'') world_c2) \<and>
   kv (log (RGet ''dish#$#1#$#version'') world_c2) ''dish#$#1'' = Some (marshalDish dish1) \<and>
   buf (updates queued_v3) = [\<lparr>dataKey = ''dish#$#1'', versionNo = 2\<rparr>] \<and>
   parseAndDo_v3 \<lparr>dataKey = ''dish#$#1'', versionNo = 2\<rparr> queued_v3
       (log (RGet ''dish#$#1#$#version'') world_c2)
     = Done (None, queued_v3\<lparr>version := [''dish#$#1'' \<mapsto> 2]\<rparr>,
             log (RGet ''dish#$#1'') (log (RGet ''dish#$#1#$#version'') world_c2)) \<and>
   worker_step_v3 queued_v3 (log (RGet ''dish#$#1#$#version'') world_c2)
     = Some (Done (applied_v3,
               log (RGet ''dish#$#1'') (log (RGet ''dish#$#1#$#version'') world_c2))) \<and>
   version applied_v3 ''dish#$#1'' = Some 2 \<and>
   c applied_v3 ''dish#$#1'' = Some (marshalDish dish1) \<and>
   kv world0 ''dish#$#1'' = None \<and>
   parseAndDo_v3 \<lparr>dataKey = ''dish#$#1'', versionNo = 2\<rparr> queued_v3 world0
     = Done (Some RedisNil, queued_v3, log (RGet ''dish#$#1'') world0) \<and>
   worker_step_v3 queued_v3 world0
     = Some (Done (seen_v3, log (RGet ''dish#$#1'') world0))"
proof -
  let ?info = "\<lparr>dataKey = ''dish#$#1'', versionNo = 2\<rparr>"
  let ?wq = "log (RGet ''dish#$#1#$#version'') world_c2"
  have cl: "rdb queued_v3 = Some testClient"
    by (simp add: run_defs)
  have facts: "up ?wq" "kv ?wq ''dish#$#1'' = Some (marshalDish dish1)"
    "buf (updates queued_v3) = [?info]" "kv world0 ''dish#$#1'' = None"
    by (simp_all add: run_defs)
  have states: "version applied_v3 ''dish#$#1'' = Some 2"
    "c applied_v3 ''dish#$#1'' = Some (marshalDish dish1)"
    by (simp_all add: run_defs)
  have hit: "parseAndDo_v3 ?info queued_v3 ?wq
       = Done (None, queued_v3\<lparr>version := [''dish#$#1'' \<mapsto> 2]\<rparr>, log (RGet ''dish#$#1'') ?wq)"
    "worker_step_v3 queued_v3 ?wq = Some (Done (applied_v3, log (RGet ''dish#$#1'') ?wq))"
    using worker_v3_applies_or_drops [OF cl, of ?wq ?info "marshalDish dish1" "[]"]
    by (simp_all add: run_defs)
  have miss: "parseAndDo_v3 ?info queued_v3 world0
       = Done (Some RedisNil, queued_v3, log (RGet ''dish#$#1'') world0)"
    "worker_step_v3 queued_v3 world0 = Some (Done (seen_v3, log (RGet ''dish#$#1'') world0))"
    using worker_v3_applies_or_drops [OF cl, of world0 ?info "marshalDish dish1" "[]"]
    by (simp_all add: run_defs)
  from cl facts hit miss states show ?thesis
    by simp
qed

subsection \<open>C5: the first \<open>Get\<close> of an entity\<close>

text \<open>
  C5, in cache\_test.go: the entity is in neither tier and has no shadow version, the
  remote store answers, the loader of the namespace is registered and returns \<open>data\<close>,
  and the copy into the target succeeds. Then \<open>Get\<close> returns without error; its trace is
  the version read, the value read, one loader call and one remote write; both tiers hold
  the same serialized value under the value key; and the shadow version is 0.
\<close>

theorem first_Get_v3_loads_once:
  assumes "c p (jointKey [Namespace cd obj, key]) = None"
    and "kv w (jointKey [Namespace cd obj, key]) = None"
    and "version p (jointKey [Namespace cd obj, key]) = None"
    and "rdb p = Some client" and "up w"
    and "loaders p (Namespace cd obj) = Some loader"
    and "loader key = Inr data" and "Copy cd obj data = (obj1, None)"
  shows "\<exists>p1 w1. Get_v3 cd key obj p w = Done (None, obj1, p1, w1) \<and>
           trace w1 = trace w @
             [RGet (jointKey [Namespace cd obj, key, ''version'']),
              RGet (jointKey [Namespace cd obj, key]),
              Load (Namespace cd obj) key,
              RSet (jointKey [Namespace cd obj, key]) (toJson cd obj1)] \<and>
           c p1 (jointKey [Namespace cd obj, key]) = Some (toJson cd obj1) \<and>
           kv w1 (jointKey [Namespace cd obj, key]) = Some (toJson cd obj1) \<and>
           version p1 (jointKey [Namespace cd obj, key]) = Some 0"
proof -
  let ?k = "jointKey [Namespace cd obj, key]"
  let ?w1 = "log (RGet (jointKey [Namespace cd obj, key, ''version''])) w"
  have chk: "checkCacheUpdate_v3 (Namespace cd obj) key p w = Done (p, ?w1)"
    using assms(3,4) by (rule checkCacheUpdate_v3_skips [rotated])
  have "get_v3 cd key obj p ?w1 = load_v3 cd key ?k obj p (log (RGet ?k) ?w1)"
    using assms(1,2,4,5) by (intro get_v3_full_miss) simp_all
  also have "\<dots> = Done (None, obj1,
       p\<lparr>c := (c p)(?k \<mapsto> toJson cd obj1), version := (version p)(?k \<mapsto> 0)\<rparr>,
       log (RSet ?k (toJson cd obj1))
         ((log (Load (Namespace cd obj) key) (log (RGet ?k) ?w1))\<lparr>kv := (kv w)(?k \<mapsto> toJson cd obj1)\<rparr>))"
    using load_v3_success [OF assms(6,7,8,4), of "log (RGet ?k) ?w1" ?k] assms(3,5)
    by (simp del: jointKey.simps)
  finally show ?thesis
    by (simp add: Get_v3_def chk del: jointKey.simps)
qed

theorem first_Get_v3_loads_once_witness:
  "c ready_v3 (jointKey [Namespace dishCodec emptyDish, ''1'']) = None \<and>
   kv world0 (jointKey [Namespace dishCodec emptyDish, ''1'']) = None \<and>
   version ready_v3 (jointKey [Namespace dishCodec emptyDish, ''1'']) = None \<and>
   rdb ready_v3 = Some testClient \<and> up world0 \<and>
   loaders ready_v3 (Namespace dishCodec emptyDish) = Some GetDish \<and>
   GetDish ''1'' = Inr dish1 \<and> Copy dishCodec emptyDish dish1 = (dish1, None) \<and>
   (\<exists>p1 w1. Get_v3 dishCodec ''1'' emptyDish ready_v3 world0 = Done (None, dish1, p1, w1) \<and>
      trace w1 = trace world0 @
        [RGet ''dish#$#1#$#version'', RGet ''dish#$#1'', Load ''dish'' ''1'',
         RSet ''dish#$#1'' (marshalDish dish1)] \<and>
      c p1 ''dish#$#1'' = Some (marshalDish dish1) \<and>
      kv w1 ''dish#$#1'' = Some (marshalDish dish1) \<and>
      version p1 ''dish#$#1'' = Some 0)"
proof -
  have h1: "c ready_v3 (jointKey [Namespace dishCodec emptyDish, ''1'']) = None"
    and h2: "kv world0 (jointKey [Namespace dishCodec emptyDish, ''1'']) = None"
    and h3: "version ready_v3 (jointKey [Namespace dishCodec emptyDish, ''1'']) = None"
    and h4: "rdb ready_v3 = Some testClient" and h5: "up world0"
    and h6: "loaders ready_v3 (Namespace dishCodec emptyDish) = Some GetDish"
    and h7: "GetDish ''1'' = Inr dish1"
    and h8: "Copy dishCodec emptyDish dish1 = (dish1, None)"
    by (simp_all add: run_defs dish_defs)
  from first_Get_v3_loads_once [OF h1 h2 h3 h4 h5 h6 h7 h8] h1 h2 h3 h4 h5 h6 h7 h8
  show ?thesis
    by (simp add: dish_defs cacheKeyJoint_def)
qed

text \<open>
  The same for src/cache.go, for an instance whose \<open>rdb\<close> is set and a remote store that
  holds nothing under the bare key; the local tier holds the object itself.
\<close>

lemma first_Get_v1_loads_once:
  assumes "c p (jointKey [Namespace cd obj, key]) = None"
    and "kv w key = None"
    and "version p (jointKey [Namespace cd obj, key]) = None"
    and "rdb p = Some client" and "up w"
    and "loaders p (Namespace cd obj) = Some loader"
    and "loader key = Inr data" and "Copy cd obj data = (obj1, None)"
  shows "\<exists>p1 w1. Get_v1 cd key obj p w = Done (None, obj1, p1, w1) \<and>
           trace w1 = trace w @
             [RGet (jointKey [Namespace cd obj, key, ''version'']),
              RGet key,
              Load (Namespace cd obj) key,
              RSet (jointKey [Namespace cd obj, key]) (toJson cd obj1)] \<and>
           c p1 (jointKey [Namespace cd obj, key]) = Some obj1 \<and>
           kv w1 (jointKey [Namespace cd obj, key]) = Some (toJson cd obj1) \<and>
           version p1 (jointKey [Namespace cd obj, key]) = Some 0"
proof -
  let ?k = "jointKey [Namespace cd obj, key]"
  let ?w1 = "log (RGet (jointKey [Namespace cd obj, key, ''version''])) w"
  have chk: "checkCacheUpdate_v1 (Namespace cd obj) key p w = Done (p, ?w1)"
    using assms(3,4) by (rule checkCacheUpdate_v1_skips [rotated])
  have "get_v1 cd key obj p ?w1 = load_v1 cd key ?k obj p (log (RGet key) ?w1)"
    using assms(1,2,4,5) by (intro get_v1_full_miss) simp_all
  also have "\<dots> = Done (None, obj1,
       p\<lparr>c := (c p)(?k \<mapsto> obj1), version := (version p)(?k \<mapsto> 0)\<rparr>,
       log (RSet ?k (toJson cd obj1))
         ((log (Load (Namespace cd obj) key) (log (RGet key) ?w1))\<lparr>kv := (kv w)(?k \<mapsto> toJson cd obj1)\<rparr>))"
    using load_v1_success [OF assms(6,7,8,4), of "log (RGet key) ?w1" ?k] assms(3,5)
    by (simp del: jointKey.simps)
  finally show ?thesis
    by (simp add: Get_v1_def chk del: jointKey.simps)
qed

subsection \<open>C6: the second \<open>Get\<close>\<close>

text \<open>
  C6 as stated fails: the second \<open>Get\<close> of dish 1 reads the version key from the remote
  store before it is served from the local tier.
\<close>

theorem second_Get_v3_reads_version_key:
  "Get_v3 dishCodec ''1'' emptyDish ready_v3 world0 = Done (None, dish1, seen_v3, world1) \<and>
   Get_v3 dishCodec ''1'' emptyDish seen_v3 world1
     = Done (None, dish1, seen_v3, log (RGet ''dish#$#1#$#version'') world1) \<and>
   trace (log (RGet ''dish#$#1#$#version'') world1)
     = trace world1 @ [RGet ''dish#$#1#$#version'']"
  by (simp add: get_v3_defs redis_defs run_defs dish_defs cacheKeyJoint_def)

text \<open>A full queue and a version that differs: the check blocks.\<close>

lemma checkCacheUpdate_v3_blocks:
  assumes "rdb p = Some client" "up w"
    and "kv w (jointKey [namespace, key, ''version'']) = Some content"
    and "ParseInt content = Inr latest"
    and "version p (jointKey [namespace, key]) = Some current" "latest \<noteq> current"
    and "cap (updates p) \<le> length (buf (updates p))"
  shows "checkCacheUpdate_v3 namespace key p w = Blocked"
  using assms by (simp add: checkCacheUpdate_v3_def Let_def redis_Get_def send_def)

text \<open>
  C6, amended: after a \<open>Get\<close> that succeeded, and provided the notification queue is not
  full, a second \<open>Get\<close> of the same entity is served from the local tier: what it returns
  (error and object) is the decoding of the local entry into its target. Its only remote
  command is the read of the version key: no loader call, no read or write of the value
  key. The local tier, the shadow versions, the loaders and the client are as they were.
\<close>

theorem second_Get_v3_local:
  assumes "Get_v3 cd key obj p w = Done (None, obj1, p1, w1)"
    and "Namespace cd obj2 = Namespace cd obj"
    and "length (buf (updates p1)) < cap (updates p1)"
  shows "\<exists>content p2.
           c p1 (jointKey [Namespace cd obj, key]) = Some content \<and>
           Get_v3 cd key obj2 p1 w1 =
             Done (snd (Unmarshal cd content obj2), fst (Unmarshal cd content obj2), p2,
                   log (RGet (jointKey [Namespace cd obj, key, ''version''])) w1) \<and>
           c p2 = c p1 \<and> version p2 = version p1 \<and> loaders p2 = loaders p1 \<and>
           rdb p2 = rdb p1"
proof -
  let ?k = "jointKey [Namespace cd obj, key]"
  let ?w2 = "log (RGet (jointKey [Namespace cd obj, key, ''version''])) w1"
  from Get_v3_success_fills [OF assms(1)] obtain content client where
    hit: "c p1 ?k = Some content" and cl: "rdb p1 = Some client"
    by auto
  obtain p2 where chk: "checkCacheUpdate_v3 (Namespace cd obj) key p1 w1 = Done (p2, ?w2)"
    using checkCacheUpdate_v3_returns [OF cl, of "Namespace cd obj" key w1] assms(3) by blast
  note same = checkCacheUpdate_v3_Done [OF chk]
  have "c p2 (jointKey [Namespace cd obj2, key]) = Some content"
    using hit same assms(2) by simp
  from get_v3_local_hit [OF this, of ?w2]
  have "Get_v3 cd key obj2 p1 w1 =
          Done (snd (Unmarshal cd content obj2), fst (Unmarshal cd content obj2), p2, ?w2)"
    by (simp add: Get_v3_def assms(2) chk del: jointKey.simps)
  with hit same show ?thesis
    by blast
qed

theorem second_Get_v3_local_witness:
  "Get_v3 dishCodec ''1'' emptyDish ready_v3 world0 = Done (None, dish1, seen_v3, world1) \<and>
   Namespace dishCodec emptyDish = Namespace dishCodec emptyDish \<and>
   length (buf (updates seen_v3)) < cap (updates seen_v3) \<and>
   (\<exists>p2. c seen_v3 ''dish#$#1'' = Some (marshalDish dish1) \<and>
      Get_v3 dishCodec ''1'' emptyDish seen_v3 world1
        = Done (None, dish1, p2, log (RGet ''dish#$#1#$#version'') world1) \<and>
      c p2 = c seen_v3 \<and> version p2 = version seen_v3 \<and> loaders p2 = loaders seen_v3 \<and>
      rdb p2 = rdb seen_v3)"
proof -
  have h3: "length (buf (updates seen_v3)) < cap (updates seen_v3)"
    by (simp add: run_defs)
  have loc: "c seen_v3 ''dish#$#1'' = Some (marshalDish dish1)"
    by (simp add: run_defs)
  from second_Get_v3_local [OF first_Get_v3_run refl h3] obtain content p2 where
    "c seen_v3 (jointKey [Namespace dishCodec emptyDish, ''1'']) = Some content"
    and g: "Get_v3 dishCodec ''1'' emptyDish seen_v3 world1 =
       Done (snd (Unmarshal dishCodec content emptyDish),
             fst (Unmarshal dishCodec content emptyDish), p2,
             log (RGet (jointKey [Namespace dishCodec emptyDish, ''1'', ''version''])) world1)"
    and same: "c p2 = c seen_v3" "version p2 = version seen_v3" "loaders p2 = loaders seen_v3"
      "rdb p2 = rdb seen_v3"
    by blast
  then have "content = marshalDish dish1"
    using loc by (simp add: dish_defs cacheKeyJoint_def)
  with g have "Get_v3 dishCodec ''1'' emptyDish seen_v3 world1
        = Done (None, dish1, p2, log (RGet ''dish#$#1#$#version'') world1)"
    by (simp add: dish_defs cacheKeyJoint_def)
  with same loc first_Get_v3_run h3 show ?thesis
    by auto
qed

subsection \<open>C7: the refresh coordinator\<close>

text \<open>
  C7, in part\_000 and cache\_test.go: the loader is registered and the lock is obtained
  after \<open>m\<close> failed attempts. If the loader fails, the goroutine ends with the instance and
  the remote store unchanged, and its trace ends with the loader call: the lock is not
  released. If the loader returns \<open>data\<close>, the remote store answers and the counter under
  \<open>jointKey ["version", k]\<close> is an integer \<open>n\<close> below the 64-bit maximum, then both tiers
  hold the serialized \<open>data\<close>, the counter is \<open>n + 1\<close>, the shadow version is \<open>n + 1\<close>, and
  the trace is: the lock, the loader call, the remote write, the increment, the release.
\<close>

theorem Refresh_v3_outcomes:
  assumes "loaders p namespace = Some loader" and "locker p = Some lk"
  shows
    "(loader key = Inl e \<longrightarrow>
        (\<exists>w1. Refresh_v3 cd namespace key (replicate m False @ True # rest) p w
                 = Some (Done (p, w1)) \<and>
              kv w1 = kv w \<and>
              trace w1 = trace w @
                replicate m (Obtain (jointKey [''lock'', jointKey [namespace, key]]) False) @
                [Obtain (jointKey [''lock'', jointKey [namespace, key]]) True,
                 Load namespace key])) \<and>
     (loader key = Inr data \<and> rdb p = Some client \<and> up w \<and>
      counter_of w (jointKey [''version'', jointKey [namespace, key]]) = Some n \<and>
      n + 1 < 2 ^ 63 \<longrightarrow>
        (\<exists>p1 w1. Refresh_v3 cd namespace key (replicate m False @ True # rest) p w
                    = Some (Done (p1, w1)) \<and>
              c p1 (jointKey [namespace, key]) = Some (toJson cd data) \<and>
              kv w1 (jointKey [namespace, key]) = Some (toJson cd data) \<and>
              counter_of w1 (jointKey [''version'', jointKey [namespace, key]]) = Some (n + 1) \<and>
              version p1 (jointKey [namespace, key]) = Some (n + 1) \<and>
              trace w1 = trace w @
                replicate m (Obtain (jointKey [''lock'', jointKey [namespace, key]]) False) @
                [Obtain (jointKey [''lock'', jointKey [namespace, key]]) True,
                 Load namespace key,
                 RSet (jointKey [namespace, key]) (toJson cd data),
                 RIncr (jointKey [''version'', jointKey [namespace, key]]),
                 Release (jointKey [''lock'', jointKey [namespace, key]])]))"
proof (intro conjI impI)
  let ?k = "jointKey [namespace, key]"
  let ?vk = "jointKey [''version'', ?k]"
  let ?lk = "jointKey [''lock'', ?k]"
  let ?w0 = "w\<lparr>trace := trace w @ replicate m (Obtain ?lk False)\<rparr>"
  have start: "Refresh_v3 cd namespace key (replicate m False @ True # rest) p w =
               Refresh_task cd loader namespace key (True # rest) p ?w0"
    using assms by (simp add: Refresh_v3_def Refresh_task_retries del: jointKey.simps Refresh_task.simps)
  {
    assume "loader key = Inl e"
    then show "\<exists>w1. Refresh_v3 cd namespace key (replicate m False @ True # rest) p w
                 = Some (Done (p, w1)) \<and> kv w1 = kv w \<and>
              trace w1 = trace w @ replicate m (Obtain ?lk False) @
                [Obtain ?lk True, Load namespace key]"
      unfolding start using assms(2)
      by (simp add: Refresh_task_loader_error del: jointKey.simps Refresh_task.simps)
  }
  {
    assume h: "loader key = Inr data \<and> rdb p = Some client \<and> up w \<and>
      counter_of w ?vk = Some n \<and> n + 1 < 2 ^ 63"
    then have "counter_of ?w0 ?vk = Some n" "up ?w0"
      by simp_all
    with h have run: "Refresh_task cd loader namespace key (True # rest) p ?w0 =
         Some (Done
           (p\<lparr>c := (c p)(?k \<mapsto> toJson cd data), version := (version p)(?k \<mapsto> n + 1)\<rparr>,
            ?w0\<lparr>kv := (kv ?w0)(?k \<mapsto> toJson cd data, ?vk \<mapsto> show_int (n + 1)),
              trace := trace ?w0 @
                [Obtain ?lk True, Load namespace key, RSet ?k (toJson cd data), RIncr ?vk,
                 Release ?lk]\<rparr>))"
      using assms(2) by (intro Refresh_task_success) simp_all
    have "counter_of (w\<lparr>kv := (kv w)(?k \<mapsto> toJson cd data)\<rparr>) ?vk = Some n"
      using h version_jointKey_neq(2) [of ?k] by (simp add: counter_of_other_key del: jointKey.simps)
    from counter_of_after_Incr [OF this] h
    have after: "counter_of (w\<lparr>kv := (kv w)(?k \<mapsto> toJson cd data, ?vk \<mapsto> show_int (n + 1))\<rparr>) ?vk
                   = Some (n + 1)"
      by (simp del: jointKey.simps)
    show "\<exists>p1 w1. Refresh_v3 cd namespace key (replicate m False @ True # rest) p w
                    = Some (Done (p1, w1)) \<and>
              c p1 ?k = Some (toJson cd data) \<and>
              kv w1 ?k = Some (toJson cd data) \<and>
              counter_of w1 ?vk = Some (n + 1) \<and>
              version p1 ?k = Some (n + 1) \<and>
              trace w1 = trace w @ replicate m (Obtain ?lk False) @
                [Obtain ?lk True, Load namespace key, RSet ?k (toJson cd data), RIncr ?vk,
                 Release ?lk]"
      unfolding start run using after version_jointKey_neq(2) [of ?k]
      by (simp add: counter_of_def del: jointKey.simps)
  }
qed

theorem Refresh_v3_outcomes_witness:
  "loaders ready_v3 ''dish'' = Some GetDish \<and> locker ready_v3 = Some testClient \<and>
   GetDish ''3'' = Inl (Errorf ''dish [3] not found'') \<and>
   (\<exists>w1. Refresh_v3 dishCodec ''dish'' ''3'' [False, False, True] ready_v3 world1
            = Some (Done (ready_v3, w1)) \<and>
      kv w1 = kv world1 \<and>
      trace w1 = trace world1 @
        [Obtain ''lock#$#dish#$#3'' False, Obtain ''lock#$#dish#$#3'' False,
         Obtain ''lock#$#dish#$#3'' True, Load ''dish'' ''3'']) \<and>
   GetDish ''1'' = Inr dish1 \<and> rdb ready_v3 = Some testClient \<and> up world1 \<and>
   counter_of world1 ''version#$#dish#$#1'' = Some 0 \<and>
   (\<exists>p1 w1. Refresh_v3 dishCodec ''dish'' ''1'' [False, False, True] ready_v3 world1
               = Some (Done (p1, w1)) \<and>
      c p1 ''dish#$#1'' = Some (marshalDish dish1) \<and>
      kv w1 ''dish#$#1'' = Some (marshalDish dish1) \<and>
      counter_of w1 ''version#$#dish#$#1'' = Some 1 \<and>
      version p1 ''dish#$#1'' = Some 1 \<and>
      trace w1 = trace world1 @
        [Obtain ''lock#$#dish#$#1'' False, Obtain ''lock#$#dish#$#1'' False,
         Obtain ''lock#$#dish#$#1'' True, Load ''dish'' ''1'',
         RSet ''dish#$#1'' (marshalDish dish1), RIncr ''version#$#dish#$#1'',
         Release ''lock#$#dish#$#1''])"
proof -
  have h1: "loaders ready_v3 ''dish'' = Some GetDish"
    and h2: "locker ready_v3 = Some testClient"
    and h3: "rdb ready_v3 = Some testClient" and h4: "up world1"
    and h5: "counter_of world1 (jointKey [''version'', jointKey [''dish'', ''1'']]) = Some 0"
    by (simp_all add: run_defs counter_of_def cacheKeyJoint_def)
  have r: "replicate 2 False @ True # [] = [False, False, True]"
    by (simp add: numeral_2_eq_2)
  from Refresh_v3_outcomes [OF h1 h2, of "''3''" "Errorf ''dish [3] not found''" dishCodec 2 "[]"
      world1 dish1 testClient 0]
  have fail: "\<exists>w1. Refresh_v3 dishCodec ''dish'' ''3'' [False, False, True] ready_v3 world1
            = Some (Done (ready_v3, w1)) \<and>
      kv w1 = kv world1 \<and>
      trace w1 = trace world1 @
        [Obtain ''lock#$#dish#$#3'' False, Obtain ''lock#$#dish#$#3'' False,
         Obtain ''lock#$#dish#$#3'' True, Load ''dish'' ''3'']"
    by (simp add: r dish_defs cacheKeyJoint_def numeral_2_eq_2)
  from Refresh_v3_outcomes [OF h1 h2, of "''1''" "Errorf ''x''" dishCodec 2 "[]"
      world1 dish1 testClient 0] h3 h4 h5
  have ok: "\<exists>p1 w1. Refresh_v3 dishCodec ''dish'' ''1'' [False, False, True] ready_v3 world1
               = Some (Done (p1, w1)) \<and>
      c p1 ''dish#$#1'' = Some (marshalDish dish1) \<and>
      kv w1 ''dish#$#1'' = Some (marshalDish dish1) \<and>
      counter_of w1 ''version#$#dish#$#1'' = Some 1 \<and>
      version p1 ''dish#$#1'' = Some 1 \<and>
      trace w1 = trace world1 @
        [Obtain ''lock#$#dish#$#1'' False, Obtain ''lock#$#dish#$#1'' False,
         Obtain ''lock#$#dish#$#1'' True, Load ''dish'' ''1'',
         RSet ''dish#$#1'' (marshalDish dish1), RIncr ''version#$#dish#$#1'',
         Release ''lock#$#dish#$#1'']"
    by (simp add: r dish_defs cacheKeyJoint_def numeral_2_eq_2)
  from fail ok h1 h2 h3 h4 h5 show ?thesis
    by (simp add: dish_defs cacheKeyJoint_def)
qed

subsection \<open>C8: the shadow version and the remote counter\<close>

text \<open>
  C8 as stated fails: on a remote store whose counter for dish 1 is 5, the first \<open>Get\<close> of
  a fresh instance seeds the shadow version at 0 and queues nothing, so the two values
  differ while no notification is in flight.
\<close>

theorem seed_differs_without_notification:
  "Get_v3 dishCodec ''1'' emptyDish ready_v3 world5 = Done (None, dish1, seen_v3, world6) \<and>
   version seen_v3 ''dish#$#1'' = Some 0 \<and>
   counter_of world6 ''dish#$#1#$#version'' = Some 5 \<and>
   counter_of world6 ''version#$#dish#$#1'' = Some 5 \<and>
   buf (updates seen_v3) = []"
  by (simp add: get_v3_defs redis_defs run_defs dish_defs cacheKeyJoint_def ParseInt_def
      digit_of_def redis_int_def show_int_def show_nat.simps digit_char_def)

text \<open>
  Two things the bound does not survive. A \<open>Get\<close> of another entity whose value key is
  the key of this entity's counter overwrites the counter with a serialized object. And
  \<open>Refresh\<close> sets the shadow version to the counter it has incremented, which is not the
  one under the key that \<open>Get\<close> reads.
\<close>

lemma seen_any_run:
  "Get_v3 dishCodec ''1'' emptyDish (fresh_v3\<lparr>loaders := [''dish'' \<mapsto> anyDish]\<rparr>) world0
     = Done (None, dish1, seen_any, world1)"
  by (simp add: get_v3_defs redis_defs run_defs dish_defs cacheKeyJoint_def)

lemma value_key_can_be_a_version_key:
  "shadow_le ''dish#$#1#$#version'' ''dish#$#1'' seen_any world1 \<and>
   Get_v3 dishCodec ''1#$#version'' emptyDish seen_any world1
     = Done (None, dish1, clash_any, world_clash) \<and>
   jointKey [''dish'', ''1#$#version''] = jointKey [''dish'', ''1'', ''version''] \<and>
   \<not> shadow_le ''dish#$#1#$#version'' ''dish#$#1'' clash_any world_clash"
proof -
  have "shadow_le ''dish#$#1#$#version'' ''dish#$#1'' seen_any world1"
    by (simp add: shadow_le_def counter_of_def run_defs)
  moreover have "Get_v3 dishCodec ''1#$#version'' emptyDish seen_any world1
     = Done (None, dish1, clash_any, world_clash)"
    by (simp add: get_v3_defs redis_defs run_defs dish_defs cacheKeyJoint_def)
  moreover have "\<not> shadow_le ''dish#$#1#$#version'' ''dish#$#1'' clash_any world_clash"
    by (simp add: shadow_le_def counter_of_def run_defs redis_int_marshalDish)
  ultimately show ?thesis
    by (simp add: cacheKeyJoint_def)
qed

lemma Refresh_outruns_check_key:
  "shadow_le ''dish#$#1#$#version'' ''dish#$#1'' ready_v3 world1 \<and>
   Refresh_v3 dishCodec ''dish'' ''1'' [True] ready_v3 world1
     = Some (Done (refreshed_v3, world2)) \<and>
   \<not> shadow_le ''dish#$#1#$#version'' ''dish#$#1'' refreshed_v3 world2"
proof -
  have "Refresh_v3 dishCodec ''dish'' ''1'' [True] ready_v3 world1
          = Some (Done (refreshed_v3, world2))"
    by (simp add: Refresh_v3_def redis_defs run_defs dish_defs cacheKeyJoint_def redis_int_def
        ParseInt_def)
  moreover have "shadow_le ''dish#$#1#$#version'' ''dish#$#1'' ready_v3 world1"
    by (simp add: shadow_le_def counter_of_def run_defs)
  moreover have "\<not> shadow_le ''dish#$#1#$#version'' ''dish#$#1'' refreshed_v3 world2"
    by (simp add: shadow_le_def counter_of_def run_defs)
  ultimately show ?thesis by simp
qed

text \<open>
  C8, amended: take an entity and the counter stored under
  \<open>jointKey [namespace, key, "version"]\<close>, the one that \<open>Get\<close> reads. If the counter is a
  non-negative integer, the shadow version of the entity is at most the counter and so
  is the number of every queued notification for the entity (\<open>shadow_le\<close>), then the same
  holds after every run of calls of \<open>Get\<close> and turns of the worker, provided no \<open>Get\<close> of
  the run has the counter's key as its value key. Nothing is said of the two values being
  equal when no notification is queued, nor of what \<open>Refresh\<close> does to the bound.
\<close>

theorem shadow_le_along_runs:
  assumes "shadow_le (jointKey [ens, ekey, ''version'']) (jointKey [ens, ekey]) p w"
    and "list_all (spares cd (jointKey [ens, ekey, ''version''])) ops"
    and "run_ops cd ops p w = Done (p1, w1)"
  shows "shadow_le (jointKey [ens, ekey, ''version'']) (jointKey [ens, ekey]) p1 w1"
  using assms
proof (induction ops arbitrary: p w)
  case Nil
  then show ?case by simp
next
  case (Cons x ops)
  show ?case
  proof (cases x)
    case (DoGet key obj)
    with Cons.prems(3) obtain err obj1 p0 w0 where
      g: "Get_v3 cd key obj p w = Done (err, obj1, p0, w0)"
      and rest: "run_ops cd ops p0 w0 = Done (p1, w1)"
      by (auto split: run.splits)
    from Cons.prems(2) DoGet have
      "jointKey [Namespace cd obj, key] \<noteq> jointKey [ens, ekey, ''version'']"
      by (simp add: spares_def del: jointKey.simps)
    with Cons.prems(1) g
    have "shadow_le (jointKey [ens, ekey, ''version'']) (jointKey [ens, ekey]) p0 w0"
      by (rule Get_v3_keeps_shadow_le)
    moreover from Cons.prems(2) have "list_all (spares cd (jointKey [ens, ekey, ''version''])) ops"
      by simp
    ultimately show ?thesis
      using rest by (rule Cons.IH)
  next
    case DoWork
    from Cons.prems(2) have sp: "list_all (spares cd (jointKey [ens, ekey, ''version''])) ops"
      by simp
    show ?thesis
    proof (cases "worker_step_v3 p w")
      case None
      with Cons.prems(3) DoWork have "run_ops cd ops p w = Done (p1, w1)"
        by simp
      with Cons.prems(1) sp show ?thesis
        by (rule Cons.IH)
    next
      case (Some res)
      with Cons.prems(3) DoWork obtain p0 w0 where
        res: "res = Done (p0, w0)" and rest: "run_ops cd ops p0 w0 = Done (p1, w1)"
        by (auto split: run.splits)
      from Cons.prems(1) Some [unfolded res]
      have "shadow_le (jointKey [ens, ekey, ''version'']) (jointKey [ens, ekey]) p0 w0"
        by (rule worker_step_v3_keeps_shadow_le)
      then show ?thesis
        using sp rest by (rule Cons.IH)
    qed
  qed
qed

theorem shadow_le_along_runs_witness:
  "shadow_le (jointKey [''dish'', ''1'', ''version'']) (jointKey [''dish'', ''1'']) seen_v3 world_c2 \<and>
   list_all (spares dishCodec (jointKey [''dish'', ''1'', ''version'']))
     [DoGet ''1'' emptyDish, DoWork, DoGet ''2'' emptyDish, DoWork] \<and>
   run_ops dishCodec [DoGet ''1'' emptyDish, DoWork, DoGet ''2'' emptyDish, DoWork] seen_v3 world_c2
     = Done (applied_v3\<lparr>c := [''dish#$#1'' \<mapsto> marshalDish dish1,
                              ''dish#$#2'' \<mapsto> marshalDish dish2],
                       version := [''dish#$#1'' \<mapsto> 2, ''dish#$#2'' \<mapsto> 0]\<rparr>,
             \<lparr>kv = [''dish#$#1'' \<mapsto> marshalDish dish1, ''dish#$#1#$#version'' \<mapsto> ''2'',
                    ''dish#$#2'' \<mapsto> marshalDish dish2],
              up = True,
              trace = trace world1 @
                [RGet ''dish#$#1#$#version'', RGet ''dish#$#1'',
                 RGet ''dish#$#2#$#version'', RGet ''dish#$#2'', Load ''dish'' ''2'',
                 RSet ''dish#$#2'' (marshalDish dish2)]\<rparr>) \<and>
   shadow_le (jointKey [''dish'', ''1'', ''version'']) (jointKey [''dish'', ''1''])
     (applied_v3\<lparr>c := [''dish#$#1'' \<mapsto> marshalDish dish1,
                        ''dish#$#2'' \<mapsto> marshalDish dish2],
                 version := [''dish#$#1'' \<mapsto> 2, ''dish#$#2'' \<mapsto> 0]\<rparr>)
     \<lparr>kv = [''dish#$#1'' \<mapsto> marshalDish dish1, ''dish#$#1#$#version'' \<mapsto> ''2'',
            ''dish#$#2'' \<mapsto> marshalDish dish2],
      up = True,
      trace = trace world1 @
        [RGet ''dish#$#1#$#version'', RGet ''dish#$#1'',
         RGet ''dish#$#2#$#version'', RGet ''dish#$#2'', Load ''dish'' ''2'',
         RSet ''dish#$#2'' (marshalDish dish2)]\<rparr>"
proof -
  have h1: "shadow_le (jointKey [''dish'', ''1'', ''version'']) (jointKey [''dish'', ''1''])
              seen_v3 world_c2"
    by (simp add: shadow_le_def counter_of_def run_defs cacheKeyJoint_def redis_int_small)
  have h2: "list_all (spares dishCodec (jointKey [''dish'', ''1'', ''version'']))
              [DoGet ''1'' emptyDish, DoWork, DoGet ''2'' emptyDish, DoWork]"
    by (simp add: spares_def dish_defs cacheKeyJoint_def)
  have h3: "run_ops dishCodec [DoGet ''1'' emptyDish, DoWork, DoGet ''2'' emptyDish, DoWork]
              seen_v3 world_c2
     = Done (applied_v3\<lparr>c := [''dish#$#1'' \<mapsto> marshalDish dish1,
                              ''dish#$#2'' \<mapsto> marshalDish dish2],
                       version := [''dish#$#1'' \<mapsto> 2, ''dish#$#2'' \<mapsto> 0]\<rparr>,
             \<lparr>kv = [''dish#$#1'' \<mapsto> marshalDish dish1, ''dish#$#1#$#version'' \<mapsto> ''2'',
                    ''dish#$#2'' \<mapsto> marshalDish dish2],
              up = True,
              trace = trace world1 @
                [RGet ''dish#$#1#$#version'', RGet ''dish#$#1'',
                 RGet ''dish#$#2#$#version'', RGet ''dish#$#2'', Load ''dish'' ''2'',
                 RSet ''dish#$#2'' (marshalDish dish2)]\<rparr>)"
    by (simp add: get_v3_defs worker_step_v3_def parseAndDo_v3_def redis_defs run_defs
        dish_defs cacheKeyJoint_def ParseInt_small)
  from shadow_le_along_runs [OF h1 h2 h3] h1 h2 h3 show ?thesis
    by simp
qed

subsection \<open>C9: a loader that fails\<close>

text \<open>
  C9, in cache\_test.go (the text of lines 117 to 129 of cache.go is the same there): on a
  full miss where the loader returns the error \<open>e\<close>, \<open>Get\<close> returns \<open>e\<close> itself, the target
  is untouched, and the local tier, the remote store and the shadow versions are what
  they were. The last hypothesis says that the version check has nothing to queue or has
  room to queue it.
\<close>

theorem Get_v3_loader_error:
  assumes "c p (jointKey [Namespace cd obj, key]) = None"
    and "kv w (jointKey [Namespace cd obj, key]) = None"
    and "rdb p = Some client" and "up w"
    and "loaders p (Namespace cd obj) = Some loader"
    and "loader key = Inl e"
    and "version p (jointKey [Namespace cd obj, key]) = None
         \<or> length (buf (updates p)) < cap (updates p)"
  shows "\<exists>p1 w1. Get_v3 cd key obj p w = Done (Some e, obj, p1, w1) \<and>
           c p1 = c p \<and> version p1 = version p \<and> kv w1 = kv w"
proof -
  let ?k = "jointKey [Namespace cd obj, key]"
  let ?w1 = "log (RGet (jointKey [Namespace cd obj, key, ''version''])) w"
  obtain p1 where chk: "checkCacheUpdate_v3 (Namespace cd obj) key p w = Done (p1, ?w1)"
    using checkCacheUpdate_v3_returns [OF assms(3,7)] by blast
  note same = checkCacheUpdate_v3_Done [OF chk]
  have "get_v3 cd key obj p1 ?w1 = load_v3 cd key ?k obj p1 (log (RGet ?k) ?w1)"
    using assms(1,2,3,4) same by (intro get_v3_full_miss) simp_all
  also have "\<dots> = Done (Some e, obj, p1, log (Load (Namespace cd obj) key) (log (RGet ?k) ?w1))"
    using load_v3_loader_error [of p1 cd obj loader key e] assms(5,6) same by simp
  finally show ?thesis
    using same by (simp add: Get_v3_def chk del: jointKey.simps)
qed

theorem Get_v3_loader_error_witness:
  "c ready_v3 (jointKey [Namespace dishCodec emptyDish, ''3'']) = None \<and>
   kv world0 (jointKey [Namespace dishCodec emptyDish, ''3'']) = None \<and>
   rdb ready_v3 = Some testClient \<and> up world0 \<and>
   loaders ready_v3 (Namespace dishCodec emptyDish) = Some GetDish \<and>
   GetDish ''3'' = Inl (Errorf ''dish [3] not found'') \<and>
   length (buf (updates ready_v3)) < cap (updates ready_v3) \<and>
   (\<exists>p1 w1. Get_v3 dishCodec ''3'' emptyDish ready_v3 world0
               = Done (Some (Errorf ''dish [3] not found''), emptyDish, p1, w1) \<and>
      c p1 = c ready_v3 \<and> version p1 = version ready_v3 \<and> kv w1 = kv world0)"
proof -
  have h1: "c ready_v3 (jointKey [Namespace dishCodec emptyDish, ''3'']) = None"
    and h2: "kv world0 (jointKey [Namespace dishCodec emptyDish, ''3'']) = None"
    and h3: "rdb ready_v3 = Some testClient" and h4: "up world0"
    and h5: "loaders ready_v3 (Namespace dishCodec emptyDish) = Some GetDish"
    and h6: "GetDish ''3'' = Inl (Errorf ''dish [3] not found'')"
    and h7: "length (buf (updates ready_v3)) < cap (updates ready_v3)"
    by (simp_all add: run_defs dish_defs)
  from h7 have h7':
    "version ready_v3 (jointKey [Namespace dishCodec emptyDish, ''3'']) = None
     \<or> length (buf (updates ready_v3)) < cap (updates ready_v3)"
    by simp
  from Get_v3_loader_error [OF h1 h2 h3 h4 h5 h6 h7'] h1 h2 h3 h4 h5 h6 h7
  show ?thesis
    by simp
qed

text \<open>
  The same for src/cache.go, for an instance whose \<open>rdb\<close> is set and a remote store that
  holds nothing under the bare key that this revision reads.
\<close>

lemma Get_v1_loader_error:
  assumes "c p (jointKey [Namespace cd obj, key]) = None"
    and "kv w key = None"
    and "rdb p = Some client" and "up w"
    and "loaders p (Namespace cd obj) = Some loader"
    and "loader key = Inl e"
    and "version p (jointKey [Namespace cd obj, key]) = None
         \<or> length (buf (updates p)) < cap (updates p)"
  shows "\<exists>p1 w1. Get_v1 cd key obj p w = Done (Some e, obj, p1, w1) \<and>
           c p1 = c p \<and> version p1 = version p \<and> kv w1 = kv w"
proof -
  let ?k = "jointKey [Namespace cd obj, key]"
  let ?w1 = "log (RGet (jointKey [Namespace cd obj, key, ''version''])) w"
  obtain p1 where chk: "checkCacheUpdate_v1 (Namespace cd obj) key p w = Done (p1, ?w1)"
    using checkCacheUpdate_v1_returns [OF assms(3,7)] by blast
  note same = checkCacheUpdate_v1_Done [OF chk]
  have "get_v1 cd key obj p1 ?w1 = load_v1 cd key ?k obj p1 (log (RGet key) ?w1)"
    using assms(1,2,3,4) same by (intro get_v1_full_miss) simp_all
  also have "\<dots> = Done (Some e, obj, p1, log (Load (Namespace cd obj) key) (log (RGet key) ?w1))"
    using load_v1_loader_error [of p1 cd obj loader key e] assms(5,6) same by simp
  finally show ?thesis
    using same by (simp add: Get_v1_def chk del: jointKey.simps)
qed

subsection \<open>C10: registering a loader twice\<close>

text \<open>In part\_000 and cache\_test.go a bound namespace is refused and a fresh one is bound.\<close>

lemma RegisterLoader_v3_bound:
  "loaders p namespace = Some l \<Longrightarrow>
   RegisterLoader_v3 namespace loader p =
     (Some (Errorf (''data loader ['' @ namespace @ ''] existed'')), p)"
  by (simp add: RegisterLoader_v3_def)

lemma RegisterLoader_v3_fresh:
  "loaders p namespace = None \<Longrightarrow>
   RegisterLoader_v3 namespace loader p =
     (None, p\<lparr>loaders := (loaders p)(namespace \<mapsto> loader)\<rparr>)"
  by (simp add: RegisterLoader_v3_def)

text \<open>
  C10, in src/cache.go: \<open>RegisterLoader\<close> has no error to return, and a second call for a
  namespace replaces the loader that the first call bound.
\<close>

theorem RegisterLoader_v1_rebinds:
  "loaders (RegisterLoader_v1 namespace l2 (RegisterLoader_v1 namespace l1 p)) namespace
     = Some l2"
  by (simp add: RegisterLoader_v1_def)

end
